theory Spec2Isabelle
  imports Main "HOL-Library.AList" "HOL-Library.Sublist" "HOL-Library.Word"
begin

section \<open>The front end: values, paths and the call to the trusted side\<close>

text \<open>
  The module \<^verbatim>\<open>dist-js/index.js\<close> is the untrusted side of the plugin. Each exported
  function validates its URL arguments, builds an argument object and hands it to
  \<^verbatim>\<open>invoke\<close>, which carries it to a command of the trusted side and resolves to the
  command's reply or rejects with its error.

  Argument objects are JSON: an object is the ordered list of its properties.
\<close>

datatype jsval =
    Undefined
  | Null
  | Bool bool
  | Num int
  | Str string
  | Arr "jsval list"
  | Obj "(string \<times> jsval) list"
  | Chan nat

type_synonym args = "(string \<times> jsval) list"

text \<open>A \<^verbatim>\<open>URL\<close> object, as far as the module reads it: \<^verbatim>\<open>protocol\<close> and \<^verbatim>\<open>toString()\<close>.\<close>

record url =
  protocol :: string
  href :: string

text \<open>A path argument is \<^verbatim>\<open>string | URL\<close>.\<close>

datatype fs_path = PathStr string | PathUrl url

text \<open>\<^verbatim>\<open>path instanceof URL && path.protocol !== "file:"\<close>\<close>

fun not_file_url :: "fs_path \<Rightarrow> bool" where
  "not_file_url (PathStr s) = False"
| "not_file_url (PathUrl u) = (protocol u \<noteq> ''file:'')"

text \<open>\<^verbatim>\<open>path instanceof URL ? path.toString() : path\<close>\<close>

fun path_to_string :: "fs_path \<Rightarrow> string" where
  "path_to_string (PathStr s) = s"
| "path_to_string (PathUrl u) = href u"

text \<open>
  What a call of the module can end with besides a value: a \<^verbatim>\<open>TypeError\<close> or
  \<^verbatim>\<open>RangeError\<close> thrown on the untrusted side, or the rejection of \<^verbatim>\<open>invoke\<close>
  with the error of the trusted side.
\<close>

datatype 'e js_error = TypeError string | RangeError string | Rejected 'e

text \<open>
  The world a call runs in: the state of the trusted side, the log of the \<^verbatim>\<open>invoke\<close>
  calls made so far (command name and argument object), and the channels created with
  \<^verbatim>\<open>new Channel()\<close>, each with the callback stored in its \<^verbatim>\<open>onmessage\<close>.
\<close>

record ('b, 'cb) world =
  backend :: 'b
  calls :: "(string \<times> args) list"
  channels :: "'cb list"

text \<open>
  A command of the trusted side takes the argument object and the state of the trusted
  side, and replies or fails.
\<close>

type_synonym ('b, 'e, 'r) handler = "args \<Rightarrow> 'b \<Rightarrow> ('e + 'r) \<times> 'b"

definition invoke ::
  "('b, 'e, 'r) handler \<Rightarrow> string \<Rightarrow> args \<Rightarrow> ('b, 'cb) world
     \<Rightarrow> ('e js_error + 'r) \<times> ('b, 'cb) world" where
  "invoke h cmd a w =
     (case h a (backend w) of
        (r, b') \<Rightarrow>
          (case r of Inl e \<Rightarrow> Inl (Rejected e) | Inr v \<Rightarrow> Inr v,
           w\<lparr>backend := b', calls := calls w @ [(cmd, a)]\<rparr>))"

section \<open>FileHandle\<close>

text \<open>\<^verbatim>\<open>SeekMode\<close>: \<^verbatim>\<open>Start = 0\<close>, \<^verbatim>\<open>Current = 1\<close>, \<^verbatim>\<open>End = 2\<close>.\<close>

datatype SeekMode = Start | Current | End

fun SeekMode_code :: "SeekMode \<Rightarrow> int" where
  "SeekMode_code Start = 0"
| "SeekMode_code Current = 1"
| "SeekMode_code End = 2"

text \<open>A \<^verbatim>\<open>FileHandle\<close> is a \<^verbatim>\<open>Resource\<close>: it holds the resource identifier.\<close>

record FileHandle =
  fh_rid :: nat

type_synonym u8 = "8 word"

text \<open>
  \<^verbatim>\<open>buffer.set(data)\<close> on a \<^verbatim>\<open>Uint8Array\<close>: the numbers of \<open>data\<close> are stored from
  index 0, each converted to an unsigned byte; a source longer than the buffer throws a
  \<^verbatim>\<open>RangeError\<close> and stores nothing.
\<close>

definition buffer_set :: "u8 list \<Rightarrow> nat list \<Rightarrow> 'e js_error + u8 list" where
  "buffer_set buffer data =
     (if length data > length buffer then Inl (RangeError ''offset is out of bounds'')
      else Inr (map of_nat data @ drop (length data) buffer))"

text \<open>
  \<^verbatim>\<open>FileHandle.read(buffer)\<close>. The result is the value resolved to (\<open>None\<close> is
  \<^verbatim>\<open>null\<close>, the end-of-file marker) together with the buffer after the call.
\<close>

definition read ::
  "('b, 'e, nat list \<times> nat) handler \<Rightarrow> FileHandle \<Rightarrow> u8 list \<Rightarrow> ('b, 'cb) world
     \<Rightarrow> ('e js_error + nat option \<times> u8 list) \<times> ('b, 'cb) world" where
  "read h this buffer w =
     (if length buffer = 0 then (Inr (Some 0, buffer), w)
      else
        (case invoke h ''plugin:fs|read''
                [(''rid'', Num (int (fh_rid this))), (''len'', Num (int (length buffer)))] w of
           (Inl e, w') \<Rightarrow> (Inl e, w')
         | (Inr (data, nread), w') \<Rightarrow>
             (case buffer_set buffer data of
                Inl e \<Rightarrow> (Inl e, w')
              | Inr buffer' \<Rightarrow>
                  (Inr (if nread = 0 then None else Some nread, buffer'), w'))))"

text \<open>\<^verbatim>\<open>FileHandle.seek(offset, whence)\<close>\<close>

definition seek ::
  "('b, 'e, 'r) handler \<Rightarrow> FileHandle \<Rightarrow> int \<Rightarrow> SeekMode \<Rightarrow> ('b, 'cb) world
     \<Rightarrow> ('e js_error + 'r) \<times> ('b, 'cb) world" where
  "seek h this offset whence w =
     invoke h ''plugin:fs|seek''
       [(''rid'', Num (int (fh_rid this))), (''offset'', Num offset),
        (''whence'', Num (SeekMode_code whence))] w"

text \<open>
  The file information of \<^verbatim>\<open>fstat\<close>, \<^verbatim>\<open>stat\<close> and \<^verbatim>\<open>lstat\<close>. The trusted side
  sends the three times as numbers or \<^verbatim>\<open>null\<close>; \<^verbatim>\<open>parseFileInfo\<close> turns each number
  into a \<^verbatim>\<open>Date\<close> and copies every other field.

  \<^verbatim>\<open>new Date(t)\<close> holds the time value \<open>t\<close>, in milliseconds, when it is within
  8640000000000000 of the epoch on either side; beyond that it is an invalid date.
\<close>

datatype Date = Date int | InvalidDate

definition new_Date :: "int \<Rightarrow> Date" where
  "new_Date t = (if \<bar>t\<bar> \<le> 8640000000000000 then Date t else InvalidDate)"

record 't FileInfo =
  isFile :: bool
  isDirectory :: bool
  isSymlink :: bool
  fsize :: nat
  mtime :: "'t option"
  atime :: "'t option"
  birthtime :: "'t option"
  readonly :: bool
  fileAttributes :: "nat option"
  dev :: "nat option"
  ino :: "nat option"
  mode :: "nat option"
  nlink :: "nat option"
  uid :: "nat option"
  gid :: "nat option"
  rdev :: "nat option"
  blksize :: "nat option"
  blocks :: "nat option"

definition parseFileInfo :: "int FileInfo \<Rightarrow> Date FileInfo" where
  "parseFileInfo r =
     \<lparr>isFile = isFile r,
      isDirectory = isDirectory r,
      isSymlink = isSymlink r,
      fsize = fsize r,
      mtime = (case mtime r of None \<Rightarrow> None | Some t \<Rightarrow> Some (new_Date t)),
      atime = (case atime r of None \<Rightarrow> None | Some t \<Rightarrow> Some (new_Date t)),
      birthtime = (case birthtime r of None \<Rightarrow> None | Some t \<Rightarrow> Some (new_Date t)),
      readonly = readonly r,
      fileAttributes = fileAttributes r,
      dev = dev r,
      ino = ino r,
      mode = mode r,
      nlink = nlink r,
      uid = uid r,
      gid = gid r,
      rdev = rdev r,
      blksize = blksize r,
      blocks = blocks r\<rparr>"

text \<open>
  \<^verbatim>\<open>return f(await invoke(...))\<close>: a rejection passes through, a reply is
  post-processed.
\<close>

definition returning ::
  "('r \<Rightarrow> 's) \<Rightarrow> ('x + 'r) \<times> 'w \<Rightarrow> ('x + 's) \<times> 'w" where
  "returning f res = (case res of (Inl e, w) \<Rightarrow> (Inl e, w) | (Inr v, w) \<Rightarrow> (Inr (f v), w))"

text \<open>\<^verbatim>\<open>FileHandle.stat()\<close>\<close>

definition fstat ::
  "('b, 'e, int FileInfo) handler \<Rightarrow> FileHandle \<Rightarrow> ('b, 'cb) world
     \<Rightarrow> ('e js_error + Date FileInfo) \<times> ('b, 'cb) world" where
  "fstat h this w =
     returning parseFileInfo (invoke h ''plugin:fs|fstat'' [(''rid'', Num (int (fh_rid this)))] w)"

text \<open>An optional number argument: \<^verbatim>\<open>undefined\<close> when left out.\<close>

fun opt_num :: "nat option \<Rightarrow> jsval" where
  "opt_num None = Undefined"
| "opt_num (Some n) = Num (int n)"

text \<open>\<^verbatim>\<open>FileHandle.truncate(len)\<close>\<close>

definition ftruncate ::
  "('b, 'e, 'r) handler \<Rightarrow> FileHandle \<Rightarrow> nat option \<Rightarrow> ('b, 'cb) world
     \<Rightarrow> ('e js_error + unit) \<times> ('b, 'cb) world" where
  "ftruncate h this len w =
     returning (\<lambda>_. ())
       (invoke h ''plugin:fs|ftruncate'' [(''rid'', Num (int (fh_rid this))), (''len'', opt_num len)] w)"

text \<open>\<^verbatim>\<open>Array.from(data)\<close> of a \<^verbatim>\<open>Uint8Array\<close>, as the JSON array sent.\<close>

definition array_from :: "u8 list \<Rightarrow> jsval" where
  "array_from data = Arr (map (\<lambda>b. Num (uint b)) data)"

text \<open>\<^verbatim>\<open>FileHandle.write(data)\<close>\<close>

definition write_fh ::
  "('b, 'e, 'r) handler \<Rightarrow> FileHandle \<Rightarrow> u8 list \<Rightarrow> ('b, 'cb) world
     \<Rightarrow> ('e js_error + 'r) \<times> ('b, 'cb) world" where
  "write_fh h this data w =
     invoke h ''plugin:fs|write'' [(''rid'', Num (int (fh_rid this))), (''data'', array_from data)] w"

section \<open>The path operations of the front end\<close>

text \<open>
  Each of these throws \<^verbatim>\<open>TypeError("Must be a file URL.")\<close> for a URL of another
  protocol before anything else, except \<^verbatim>\<open>stat\<close> and \<^verbatim>\<open>lstat\<close>, which have no
  such test.

  The functions keep their names, but for those that are taken: \<^verbatim>\<open>open\<close> is \<open>open_file\<close>,
  \<^verbatim>\<open>remove\<close> is \<open>remove_path\<close>, \<^verbatim>\<open>exists\<close> is \<open>exists_path\<close>, \<^verbatim>\<open>truncate\<close> is
  \<open>truncate_path\<close>; of the methods of \<^verbatim>\<open>FileHandle\<close>, \<^verbatim>\<open>write\<close> is \<open>write_fh\<close>,
  \<^verbatim>\<open>stat\<close> is \<open>fstat\<close> and \<^verbatim>\<open>truncate\<close> is \<open>ftruncate\<close>; the iterator's \<^verbatim>\<open>next\<close> is
  \<open>lines_next\<close>.
\<close>

definition create ::
  "('b, 'e, nat) handler \<Rightarrow> fs_path \<Rightarrow> jsval \<Rightarrow> ('b, 'cb) world
     \<Rightarrow> ('e js_error + FileHandle) \<times> ('b, 'cb) world" where
  "create h path options w =
     (if not_file_url path then (Inl (TypeError ''Must be a file URL.''), w)
      else returning (\<lambda>rid. \<lparr>fh_rid = rid\<rparr>)
             (invoke h ''plugin:fs|create''
                [(''path'', Str (path_to_string path)), (''options'', options)] w))"

definition open_file ::
  "('b, 'e, nat) handler \<Rightarrow> fs_path \<Rightarrow> jsval \<Rightarrow> ('b, 'cb) world
     \<Rightarrow> ('e js_error + FileHandle) \<times> ('b, 'cb) world" where
  "open_file h path options w =
     (if not_file_url path then (Inl (TypeError ''Must be a file URL.''), w)
      else returning (\<lambda>rid. \<lparr>fh_rid = rid\<rparr>)
             (invoke h ''plugin:fs|open''
                [(''path'', Str (path_to_string path)), (''options'', options)] w))"

definition copyFile ::
  "('b, 'e, 'r) handler \<Rightarrow> fs_path \<Rightarrow> fs_path \<Rightarrow> jsval \<Rightarrow> ('b, 'cb) world
     \<Rightarrow> ('e js_error + unit) \<times> ('b, 'cb) world" where
  "copyFile h fromPath toPath options w =
     (if not_file_url fromPath \<or> not_file_url toPath
      then (Inl (TypeError ''Must be a file URL.''), w)
      else returning (\<lambda>_. ())
             (invoke h ''plugin:fs|copy_file''
                [(''fromPath'', Str (path_to_string fromPath)),
                 (''toPath'', Str (path_to_string toPath)), (''options'', options)] w))"

definition mkdir ::
  "('b, 'e, 'r) handler \<Rightarrow> fs_path \<Rightarrow> jsval \<Rightarrow> ('b, 'cb) world
     \<Rightarrow> ('e js_error + unit) \<times> ('b, 'cb) world" where
  "mkdir h path options w =
     (if not_file_url path then (Inl (TypeError ''Must be a file URL.''), w)
      else returning (\<lambda>_. ())
             (invoke h ''plugin:fs|mkdir''
                [(''path'', Str (path_to_string path)), (''options'', options)] w))"

definition readDir ::
  "('b, 'e, 'r) handler \<Rightarrow> fs_path \<Rightarrow> jsval \<Rightarrow> ('b, 'cb) world
     \<Rightarrow> ('e js_error + 'r) \<times> ('b, 'cb) world" where
  "readDir h path options w =
     (if not_file_url path then (Inl (TypeError ''Must be a file URL.''), w)
      else invoke h ''plugin:fs|read_dir''
             [(''path'', Str (path_to_string path)), (''options'', options)] w)"

text \<open>\<^verbatim>\<open>Uint8Array.from(arr)\<close>: each number of the reply becomes an unsigned byte.\<close>

definition readFile ::
  "('b, 'e, nat list) handler \<Rightarrow> fs_path \<Rightarrow> jsval \<Rightarrow> ('b, 'cb) world
     \<Rightarrow> ('e js_error + u8 list) \<times> ('b, 'cb) world" where
  "readFile h path options w =
     (if not_file_url path then (Inl (TypeError ''Must be a file URL.''), w)
      else returning (map of_nat)
             (invoke h ''plugin:fs|read_file''
                [(''path'', Str (path_to_string path)), (''options'', options)] w))"

definition readTextFile ::
  "('b, 'e, 'r) handler \<Rightarrow> fs_path \<Rightarrow> jsval \<Rightarrow> ('b, 'cb) world
     \<Rightarrow> ('e js_error + 'r) \<times> ('b, 'cb) world" where
  "readTextFile h path options w =
     (if not_file_url path then (Inl (TypeError ''Must be a file URL.''), w)
      else invoke h ''plugin:fs|read_text_file''
             [(''path'', Str (path_to_string path)), (''options'', options)] w)"

text \<open>
  \<^verbatim>\<open>readTextFileLines\<close> resolves to an iterator object: its \<^verbatim>\<open>path\<close>, its
  \<^verbatim>\<open>rid\<close> (\<^verbatim>\<open>null\<close> at first) and the \<^verbatim>\<open>options\<close> its \<^verbatim>\<open>next\<close> closes over.
  It calls nothing on the trusted side.
\<close>

record LinesIter =
  it_path :: string
  it_rid :: "nat option"
  it_options :: jsval

definition readTextFileLines ::
  "fs_path \<Rightarrow> jsval \<Rightarrow> ('b, 'cb) world \<Rightarrow> ('e js_error + LinesIter) \<times> ('b, 'cb) world" where
  "readTextFileLines path options w =
     (if not_file_url path then (Inl (TypeError ''Must be a file URL.''), w)
      else (Inr \<lparr>it_path = path_to_string path, it_rid = None, it_options = options\<rparr>, w))"

text \<open>The iterator result \<^verbatim>\<open>{ value, done }\<close>.\<close>

record IterResult =
  it_value :: "string option"
  it_done :: bool

text \<open>
  The iterator's \<^verbatim>\<open>next()\<close>. First \<^verbatim>\<open>this.rid\<close> is filled in, when it is \<^verbatim>\<open>null\<close>,
  by \<^verbatim>\<open>plugin:fs|read_text_file_lines\<close>; then \<^verbatim>\<open>plugin:fs|read_text_file_lines_next\<close>
  replies \<^verbatim>\<open>[line, done]\<close>, and \<^verbatim>\<open>done\<close> resets \<^verbatim>\<open>this.rid\<close> to \<^verbatim>\<open>null\<close>. The
  iterator after the call is returned beside the result.
\<close>

definition lines_open ::
  "('b, 'e, nat) handler \<Rightarrow> LinesIter \<Rightarrow> ('b, 'cb) world
     \<Rightarrow> ('e js_error + nat) \<times> LinesIter \<times> ('b, 'cb) world" where
  "lines_open h this w =
     (case it_rid this of
        Some r \<Rightarrow> (Inr r, this, w)
      | None \<Rightarrow>
          (case invoke h ''plugin:fs|read_text_file_lines''
                  [(''path'', Str (it_path this)), (''options'', it_options this)] w of
             (Inl e, w') \<Rightarrow> (Inl e, this, w')
           | (Inr r, w') \<Rightarrow> (Inr r, this\<lparr>it_rid := Some r\<rparr>, w')))"

definition lines_next ::
  "('b, 'e, nat) handler \<Rightarrow> ('b, 'e, string option \<times> bool) handler \<Rightarrow> LinesIter
     \<Rightarrow> ('b, 'cb) world \<Rightarrow> ('e js_error + IterResult) \<times> LinesIter \<times> ('b, 'cb) world" where
  "lines_next h hn this w =
     (case lines_open h this w of
        (Inl e, this', w') \<Rightarrow> (Inl e, this', w')
      | (Inr r, this', w') \<Rightarrow>
          (case invoke hn ''plugin:fs|read_text_file_lines_next'' [(''rid'', Num (int r))] w' of
             (Inl e, w'') \<Rightarrow> (Inl e, this', w'')
           | (Inr (line, dn), w'') \<Rightarrow>
               (Inr \<lparr>it_value = (if dn then Some [] else line), it_done = dn\<rparr>,
                (if dn then this'\<lparr>it_rid := None\<rparr> else this'),
                w'')))"

definition remove_path ::
  "('b, 'e, 'r) handler \<Rightarrow> fs_path \<Rightarrow> jsval \<Rightarrow> ('b, 'cb) world
     \<Rightarrow> ('e js_error + unit) \<times> ('b, 'cb) world" where
  "remove_path h path options w =
     (if not_file_url path then (Inl (TypeError ''Must be a file URL.''), w)
      else returning (\<lambda>_. ())
             (invoke h ''plugin:fs|remove''
                [(''path'', Str (path_to_string path)), (''options'', options)] w))"

definition rename ::
  "('b, 'e, 'r) handler \<Rightarrow> fs_path \<Rightarrow> fs_path \<Rightarrow> jsval \<Rightarrow> ('b, 'cb) world
     \<Rightarrow> ('e js_error + unit) \<times> ('b, 'cb) world" where
  "rename h oldPath newPath options w =
     (if not_file_url oldPath \<or> not_file_url newPath
      then (Inl (TypeError ''Must be a file URL.''), w)
      else returning (\<lambda>_. ())
             (invoke h ''plugin:fs|rename''
                [(''oldPath'', Str (path_to_string oldPath)),
                 (''newPath'', Str (path_to_string newPath)), (''options'', options)] w))"

definition stat ::
  "('b, 'e, int FileInfo) handler \<Rightarrow> fs_path \<Rightarrow> jsval \<Rightarrow> ('b, 'cb) world
     \<Rightarrow> ('e js_error + Date FileInfo) \<times> ('b, 'cb) world" where
  "stat h path options w =
     returning parseFileInfo
       (invoke h ''plugin:fs|stat''
          [(''path'', Str (path_to_string path)), (''options'', options)] w)"

definition lstat ::
  "('b, 'e, int FileInfo) handler \<Rightarrow> fs_path \<Rightarrow> jsval \<Rightarrow> ('b, 'cb) world
     \<Rightarrow> ('e js_error + Date FileInfo) \<times> ('b, 'cb) world" where
  "lstat h path options w =
     returning parseFileInfo
       (invoke h ''plugin:fs|lstat''
          [(''path'', Str (path_to_string path)), (''options'', options)] w)"

definition truncate_path ::
  "('b, 'e, 'r) handler \<Rightarrow> fs_path \<Rightarrow> nat option \<Rightarrow> jsval \<Rightarrow> ('b, 'cb) world
     \<Rightarrow> ('e js_error + unit) \<times> ('b, 'cb) world" where
  "truncate_path h path len options w =
     (if not_file_url path then (Inl (TypeError ''Must be a file URL.''), w)
      else returning (\<lambda>_. ())
             (invoke h ''plugin:fs|truncate''
                [(''path'', Str (path_to_string path)), (''len'', opt_num len),
                 (''options'', options)] w))"

definition writeFile ::
  "('b, 'e, 'r) handler \<Rightarrow> fs_path \<Rightarrow> u8 list \<Rightarrow> jsval \<Rightarrow> ('b, 'cb) world
     \<Rightarrow> ('e js_error + unit) \<times> ('b, 'cb) world" where
  "writeFile h path data options w =
     (if not_file_url path then (Inl (TypeError ''Must be a file URL.''), w)
      else returning (\<lambda>_. ())
             (invoke h ''plugin:fs|write_file''
                [(''path'', Str (path_to_string path)), (''data'', array_from data),
                 (''options'', options)] w))"

definition writeTextFile ::
  "('b, 'e, 'r) handler \<Rightarrow> fs_path \<Rightarrow> string \<Rightarrow> jsval \<Rightarrow> ('b, 'cb) world
     \<Rightarrow> ('e js_error + unit) \<times> ('b, 'cb) world" where
  "writeTextFile h path data options w =
     (if not_file_url path then (Inl (TypeError ''Must be a file URL.''), w)
      else returning (\<lambda>_. ())
             (invoke h ''plugin:fs|write_text_file''
                [(''path'', Str (path_to_string path)), (''data'', Str data),
                 (''options'', options)] w))"

definition exists_path ::
  "('b, 'e, 'r) handler \<Rightarrow> fs_path \<Rightarrow> jsval \<Rightarrow> ('b, 'cb) world
     \<Rightarrow> ('e js_error + 'r) \<times> ('b, 'cb) world" where
  "exists_path h path options w =
     (if not_file_url path then (Inl (TypeError ''Must be a file URL.''), w)
      else invoke h ''plugin:fs|exists''
             [(''path'', Str (path_to_string path)), (''options'', options)] w)"

section \<open>Watching\<close>

definition unwatch ::
  "('b, 'e, 'r) handler \<Rightarrow> nat \<Rightarrow> ('b, 'cb) world \<Rightarrow> ('e js_error + unit) \<times> ('b, 'cb) world" where
  "unwatch h rid w =
     returning (\<lambda>_. ()) (invoke h ''plugin:fs|unwatch'' [(''rid'', Num (int rid))] w)"

text \<open>
  The function \<^verbatim>\<open>watch\<close> and \<^verbatim>\<open>watchImmediate\<close> resolve to,
  \<^verbatim>\<open>() => { void unwatch(rid); }\<close>: it starts \<^verbatim>\<open>unwatch\<close> and drops its promise, so
  it returns \<^verbatim>\<open>undefined\<close> whether the command succeeds or fails.
\<close>

definition UnwatchFn ::
  "('b, 'e, 'r) handler \<Rightarrow> nat \<Rightarrow> ('b, 'cb) world \<Rightarrow> unit \<times> ('b, 'cb) world" where
  "UnwatchFn h rid w = ((), snd (unwatch h rid w))"

text \<open>
  The properties of a JavaScript object are enumerated, and so sent, in this order: first
  those whose name is an array index (the decimal numeral, without leading zeros, of a
  number below \<open>2 ^ 32 - 1\<close>) by ascending index, then the others in the order of their
  creation.
\<close>

definition is_digit :: "char \<Rightarrow> bool" where
  "is_digit c = (c \<in> set ''0123456789'')"

text \<open>The number a string of digits is the decimal numeral of.\<close>

fun decimal :: "nat \<Rightarrow> string \<Rightarrow> nat" where
  "decimal n [] = n"
| "decimal n (c # cs) = decimal (10 * n + (of_char c - 48)) cs"

text \<open>The array index a property name denotes, if it denotes one.\<close>

definition array_index :: "string \<Rightarrow> nat option" where
  "array_index k =
     (if k \<noteq> [] \<and> list_all is_digit k \<and> (k = ''0'' \<or> hd k \<noteq> CHR ''0'')
         \<and> decimal 0 k < 4294967295
      then Some (decimal 0 k) else None)"

text \<open>
  Whether a new property \<open>k\<close> goes before the property \<open>k'\<close> of the object: an array index
  goes before a greater one and before every other name.
\<close>

definition precedes :: "string \<Rightarrow> string \<Rightarrow> bool" where
  "precedes k k' =
     (case array_index k of
        None \<Rightarrow> False
      | Some i \<Rightarrow> (case array_index k' of None \<Rightarrow> True | Some j \<Rightarrow> i < j))"

text \<open>A property that the object does not have yet is created at its place in that order.\<close>

fun create_property :: "string \<Rightarrow> jsval \<Rightarrow> args \<Rightarrow> args" where
  "create_property k v [] = [(k, v)]"
| "create_property k v ((k', v') # ps) =
     (if precedes k k' then (k, v) # (k', v') # ps else (k', v') # create_property k v ps)"

text \<open>
  Setting a property in an object literal or by spread: a property the object has keeps
  its place and takes the new value, another one is created.
\<close>

definition set_property :: "string \<Rightarrow> jsval \<Rightarrow> args \<Rightarrow> args" where
  "set_property k v obj =
     (case map_of obj k of
        Some _ \<Rightarrow> AList.update k v obj
      | None \<Rightarrow> create_property k v obj)"

text \<open>
  Object spread \<^verbatim>\<open>{ ...obj, ...src }\<close>: each property of \<open>src\<close> is set in \<open>obj\<close>, one
  after the other; a property whose value is \<^verbatim>\<open>undefined\<close> is set like any other. An
  options argument left out (\<^verbatim>\<open>undefined\<close>, here \<open>None\<close>) adds nothing.
\<close>

definition spread :: "args \<Rightarrow> args option \<Rightarrow> args" where
  "spread obj src =
     (case src of None \<Rightarrow> obj | Some kvs \<Rightarrow> fold (\<lambda>(k, v). set_property k v) kvs obj)"

text \<open>\<^verbatim>\<open>{ recursive: false, delayMs: 2000, ...options }\<close>\<close>

definition watch_opts :: "args option \<Rightarrow> args" where
  "watch_opts options = spread [(''recursive'', Bool False), (''delayMs'', Num 2000)] options"

text \<open>\<^verbatim>\<open>{ recursive: false, ...options, delayMs: null }\<close>\<close>

definition watchImmediate_opts :: "args option \<Rightarrow> args" where
  "watchImmediate_opts options =
     set_property ''delayMs'' Null (spread [(''recursive'', Bool False)] options)"

text \<open>The paths argument is one path or an array of paths.\<close>

datatype paths_arg = OnePath fs_path | ManyPaths "fs_path list"

text \<open>\<^verbatim>\<open>Array.isArray(paths) ? paths : [paths]\<close>\<close>

fun watchPaths :: "paths_arg \<Rightarrow> fs_path list" where
  "watchPaths (OnePath p) = [p]"
| "watchPaths (ManyPaths ps) = ps"

text \<open>
  \<^verbatim>\<open>watch\<close>: \<open>opts\<close> is built, the loop over the paths throws at the first URL that
  is not a file URL, the channel is created with \<open>cb\<close> as its \<^verbatim>\<open>onmessage\<close>, and
  \<^verbatim>\<open>plugin:fs|watch\<close> is invoked. It resolves to the function that stops the session.
\<close>

definition watch ::
  "('b, 'e, nat) handler \<Rightarrow> ('b, 'e, 'r) handler \<Rightarrow> paths_arg \<Rightarrow> 'cb \<Rightarrow> args option
     \<Rightarrow> ('b, 'cb) world
     \<Rightarrow> ('e js_error + (('b, 'cb) world \<Rightarrow> unit \<times> ('b, 'cb) world)) \<times> ('b, 'cb) world" where
  "watch h hu paths cb options w =
     (let opts = watch_opts options in
      if list_ex not_file_url (watchPaths paths)
      then (Inl (TypeError ''Must be a file URL.''), w)
      else
        returning (\<lambda>rid. UnwatchFn hu rid)
          (invoke h ''plugin:fs|watch''
             [(''paths'', Arr (map (\<lambda>p. Str (path_to_string p)) (watchPaths paths))),
              (''options'', Obj opts),
              (''onEvent'', Chan (length (channels w)))]
             (w\<lparr>channels := channels w @ [cb]\<rparr>)))"

definition watchImmediate ::
  "('b, 'e, nat) handler \<Rightarrow> ('b, 'e, 'r) handler \<Rightarrow> paths_arg \<Rightarrow> 'cb \<Rightarrow> args option
     \<Rightarrow> ('b, 'cb) world
     \<Rightarrow> ('e js_error + (('b, 'cb) world \<Rightarrow> unit \<times> ('b, 'cb) world)) \<times> ('b, 'cb) world" where
  "watchImmediate h hu paths cb options w =
     (let opts = watchImmediate_opts options in
      if list_ex not_file_url (watchPaths paths)
      then (Inl (TypeError ''Must be a file URL.''), w)
      else
        returning (\<lambda>rid. UnwatchFn hu rid)
          (invoke h ''plugin:fs|watch''
             [(''paths'', Arr (map (\<lambda>p. Str (path_to_string p)) (watchPaths paths))),
              (''options'', Obj opts),
              (''onEvent'', Chan (length (channels w)))]
             (w\<lparr>channels := channels w @ [cb]\<rparr>)))"

section \<open>The trusted side: errors and the path resolver\<close>

text \<open>
  The commands behind \<^verbatim>\<open>invoke\<close> are not part of the JavaScript module. The
  definitions of this and the following sections are modelled from the specification
  (its sections 3, 4 and 7), each marked as such.
\<close>

text \<open>
  Modelled from the spec: the error taxonomy of the trusted side (section 7), which the
  module only sees as rejections. \<open>InvalidPath\<close> carries which of its three cases
  applies, so that "must be a file URL" is told apart from the others.
\<close>

datatype invalid = Malformed | Absolute | MustBeFileUrl

text \<open>
  Modelled from the spec: the error kinds of the trusted side (section 7); the commands
  are not part of the module.
\<close>

datatype error =
    InvalidPath invalid
  | PathTraversal
  | UnresolvableBaseDirectory
  | ScopeViolation
  | NotFound
  | IOError string string
  | ShortWrite

text \<open>
  Modelled from the spec: path syntax for the resolver (section 4.1). Both separators
  split a path into segments.
\<close>

definition is_sep :: "char \<Rightarrow> bool" where
  "is_sep c = (c = CHR ''/'' \<or> c = CHR 0x5C)"

text \<open>
  Modelled from the spec: the segments of a path (section 4.1), split at either separator.
\<close>

fun segments :: "string \<Rightarrow> string list" where
  "segments [] = [[]]"
| "segments (c # cs) =
     (if is_sep c then [] # segments cs
      else (case segments cs of [] \<Rightarrow> [[c]] | s # ss \<Rightarrow> (c # s) # ss))"

text \<open>
  Modelled from the spec: the letters, which a drive prefix and a URL scheme begin with.
\<close>

definition is_letter :: "char \<Rightarrow> bool" where
  "is_letter c = (c \<in> set ''abcdefghijklmnopqrstuvwxyzABCDEFGHIJKLMNOPQRSTUVWXYZ'')"

text \<open>
  Modelled from the spec: a drive prefix, a letter and a colon at the head of a path. A
  path with a drive prefix names a place on that drive, with or without a separator after
  the prefix, and not one under a base directory.
\<close>

definition drive_prefix :: "string \<Rightarrow> bool" where
  "drive_prefix p = (case p of c # d # _ \<Rightarrow> is_letter c \<and> d = CHR '':'' | _ \<Rightarrow> False)"

text \<open>
  Modelled from the spec: an absolute path (sections 3 and 4.1). It begins with a
  separator, which covers a rooted path and a path \<^verbatim>\<open>//host/share\<close> on another host, or
  it has a drive prefix.
\<close>

definition is_absolute :: "string \<Rightarrow> bool" where
  "is_absolute p = ((case p of [] \<Rightarrow> False | c # _ \<Rightarrow> is_sep c) \<or> drive_prefix p)"

text \<open>
  Modelled from the spec: how the resolver tells a URL from a path. The front end sends
  a URL as its string; a string \<open>scheme:rest\<close> is read as a URL when the scheme has two
  characters or more, a letter first and then letters, digits, \<^verbatim>\<open>+\<close>, \<^verbatim>\<open>-\<close> and
  \<^verbatim>\<open>.\<close> (a single letter is a drive prefix).
\<close>

definition is_scheme_char :: "char \<Rightarrow> bool" where
  "is_scheme_char c = (is_letter c \<or> c \<in> set ''0123456789+-.'')"

fun scheme_split :: "string \<Rightarrow> string \<Rightarrow> (string \<times> string) option" where
  "scheme_split acc [] = None"
| "scheme_split acc (c # cs) =
     (if c = CHR '':'' then (if 2 \<le> length acc then Some (rev acc, cs) else None)
      else if (if acc = [] then is_letter c else is_scheme_char c) then scheme_split (c # acc) cs
      else None)"

text \<open>
  Modelled from the spec: the path of a logical path (section 3): the string itself, or
  what follows the scheme of a URL. The authority of a URL stays in front of its path:
  of \<^verbatim>\<open>file://host/share/x\<close> the path is \<^verbatim>\<open>//host/share/x\<close>, a path on that host, and
  of \<^verbatim>\<open>file:///etc/x\<close> it is \<^verbatim>\<open>///etc/x\<close>; both are absolute.
\<close>

definition path_part :: "string \<Rightarrow> string" where
  "path_part s = (case scheme_split [] s of None \<Rightarrow> s | Some (scheme, rest) \<Rightarrow> rest)"

text \<open>
  Modelled from the spec: the invariant of a logical path (section 3) and the first
  rejections of \<open>resolve\<close> (section 4.1): a URL of another scheme, an absolute path, a
  path with a \<^verbatim>\<open>..\<close> segment. Nothing is looked up and nothing is rewritten.
\<close>

definition validate :: "string \<Rightarrow> error + string" where
  "validate s =
     (if (case scheme_split [] s of None \<Rightarrow> False | Some (scheme, rest) \<Rightarrow> scheme \<noteq> ''file'')
      then Inl (InvalidPath MustBeFileUrl)
      else if is_absolute (path_part s) then Inl (InvalidPath Absolute)
      else if ''..'' \<in> set (segments (path_part s)) then Inl PathTraversal
      else Inr (path_part s))"

text \<open>
  Modelled from the spec: the environment the core is constructed with (sections 1 and
  6): the external base-directory resolver (a lookup from the token's number), the
  implicit root used when no token is given, and the scope policy, a list of allow and a
  list of deny patterns per operation class.
\<close>

datatype pat_seg = Lit string | AnySegment | AnySegments | BaseVar int

text \<open>
  Modelled from the spec: the environment of the core (sections 1 and 6): base-directory
  resolver, implicit root, allow and deny patterns per operation class.
\<close>

record env =
  base_dir :: "int \<Rightarrow> string list option"
  implicit_root :: "string list"
  allow :: "string \<Rightarrow> pat_seg list list"
  deny :: "string \<Rightarrow> pat_seg list list"

text \<open>
  Modelled from the spec: normalisation of a joined path (section 4.1): empty and
  \<^verbatim>\<open>.\<close> segments vanish, a \<^verbatim>\<open>..\<close> segment removes the segment before it.
\<close>

fun normalize_acc :: "string list \<Rightarrow> string list \<Rightarrow> string list" where
  "normalize_acc acc [] = rev acc"
| "normalize_acc acc (s # ss) =
     (if s = [] \<or> s = ''.'' then normalize_acc acc ss
      else if s = ''..'' then normalize_acc (tl acc) ss
      else normalize_acc (s # acc) ss)"

text \<open>
  Modelled from the spec: normalisation (section 4.1), from the empty path.
\<close>

definition normalize :: "string list \<Rightarrow> string list" where
  "normalize ss = normalize_acc [] ss"

text \<open>
  Modelled from the spec: the second half of \<open>resolve\<close> (section 4.1): the root of the
  token is obtained (\<open>UnresolvableBaseDirectory\<close> when the host has none), root and
  path are joined and normalised, and the result is checked again to lie under the root
  (\<open>PathTraversal\<close> otherwise). A resolved path is the list of its segments from the
  filesystem root.
\<close>

definition locate :: "env \<Rightarrow> string \<Rightarrow> int option \<Rightarrow> error + string list" where
  "locate env p base =
     (case (case base of None \<Rightarrow> Some (implicit_root env) | Some t \<Rightarrow> base_dir env t) of
        None \<Rightarrow> Inl UnresolvableBaseDirectory
      | Some root \<Rightarrow>
          (let r = normalize (root @ segments p) in
           if prefix (normalize root) r then Inr r else Inl PathTraversal))"

text \<open>
  Modelled from the spec: \<open>resolve\<close> (section 4.1) as a whole: the
  rejections of the logical path, then the lookup, the join and the second check.
\<close>

definition resolve :: "env \<Rightarrow> string \<Rightarrow> int option \<Rightarrow> error + string list" where
  "resolve env s base = (case validate s of Inl e \<Rightarrow> Inl e | Inr p \<Rightarrow> locate env p base)"

section \<open>The trusted side: the scope policy\<close>

text \<open>
  Modelled from the spec: glob matching over path segments (sections 3 and 4.2). A
  base-directory variable in a pattern is replaced by the segments of its root at match
  time; a pattern whose variable has no root matches nothing.
\<close>

fun substitute :: "env \<Rightarrow> pat_seg list \<Rightarrow> pat_seg list option" where
  "substitute env [] = Some []"
| "substitute env (BaseVar t # ps) =
     (case base_dir env t of
        None \<Rightarrow> None
      | Some root \<Rightarrow> map_option ((@) (map Lit (normalize root))) (substitute env ps))"
| "substitute env (p # ps) = map_option ((#) p) (substitute env ps)"

text \<open>
  Modelled from the spec: glob matching over path segments (section 4.2): a literal
  segment, any one segment, any number of segments.
\<close>

fun glob :: "pat_seg list \<Rightarrow> string list \<Rightarrow> bool" where
  "glob [] ss = (ss = [])"
| "glob (AnySegments # ps) [] = glob ps []"
| "glob (AnySegments # ps) (s # ss) = (glob ps (s # ss) \<or> glob (AnySegments # ps) ss)"
| "glob (AnySegment # ps) [] = False"
| "glob (AnySegment # ps) (s # ss) = glob ps ss"
| "glob (Lit l # ps) [] = False"
| "glob (Lit l # ps) (s # ss) = (l = s \<and> glob ps ss)"
| "glob (BaseVar t # ps) ss = False"

text \<open>
  Modelled from the spec: a scope pattern matched against a resolved path, its variables
  substituted first (section 3).
\<close>

definition matches :: "env \<Rightarrow> pat_seg list \<Rightarrow> string list \<Rightarrow> bool" where
  "matches env pat rp = (case substitute env pat of None \<Rightarrow> False | Some ps \<Rightarrow> glob ps rp)"

text \<open>
  Modelled from the spec: \<open>authorize\<close> (section 4.2): an operation proceeds only if at
  least one allow pattern matches and no deny pattern matches.
\<close>

definition authorize :: "env \<Rightarrow> string list \<Rightarrow> string \<Rightarrow> bool" where
  "authorize env rp cls =
     (list_ex (\<lambda>pat. matches env pat rp) (allow env cls)
      \<and> \<not> list_ex (\<lambda>pat. matches env pat rp) (deny env cls))"

section \<open>The trusted side: the operation dispatcher\<close>

text \<open>
  Modelled from the spec: reading the path arguments of a command (the first stage of
  section 4.5, "validate argument shape"). A path argument is a string or an array of
  strings; its base-directory token is a number in the options object, or absent.
\<close>

fun str_list :: "jsval list \<Rightarrow> string list option" where
  "str_list [] = Some []"
| "str_list (Str s # vs) = map_option ((#) s) (str_list vs)"
| "str_list (v # vs) = None"

text \<open>
  Modelled from the spec: a path argument of a command (section 4.5): a string, or an array of strings.
\<close>

definition arg_paths :: "args \<Rightarrow> string \<Rightarrow> string list option" where
  "arg_paths a k =
     (case map_of a k of
        Some (Str s) \<Rightarrow> Some [s]
      | Some (Arr vs) \<Rightarrow> str_list vs
      | _ \<Rightarrow> None)"

text \<open>
  Modelled from the spec: the base-directory token in the options of a command (section
  3): a number under the given name, or none.
\<close>

definition base_of :: "jsval \<Rightarrow> string \<Rightarrow> int option" where
  "base_of options k =
     (case options of
        Obj ps \<Rightarrow> (case map_of ps k of Some (Num n) \<Rightarrow> Some n | _ \<Rightarrow> None)
      | _ \<Rightarrow> None)"

text \<open>
  Modelled from the spec: the token of a path argument, read from the
  \<^verbatim>\<open>options\<close> argument (section 4.5).
\<close>

definition arg_base :: "args \<Rightarrow> string \<Rightarrow> int option" where
  "arg_base a k = (case map_of a ''options'' of Some options \<Rightarrow> base_of options k | None \<Rightarrow> None)"

text \<open>
  Modelled from the spec: all logical paths of a command with their tokens, in the order
  of \<open>keys\<close> (section 4.5).
\<close>

fun path_args :: "(string \<times> string) list \<Rightarrow> args \<Rightarrow> (string \<times> int option) list option" where
  "path_args [] a = Some []"
| "path_args ((pk, bk) # ks) a =
     (case arg_paths a pk of
        None \<Rightarrow> None
      | Some ss \<Rightarrow>
          (case path_args ks a of
             None \<Rightarrow> None
           | Some rest \<Rightarrow> Some (map (\<lambda>s. (s, arg_base a bk)) ss @ rest)))"

text \<open>
  Modelled from the spec: a stage of an operation applied to every path in order
  (section 4.5); the first failure is the stage's.
\<close>

fun traverse :: "('a \<Rightarrow> error + 'c) \<Rightarrow> 'a list \<Rightarrow> error + 'c list" where
  "traverse f [] = Inr []"
| "traverse f (x # xs) =
     (case f x of
        Inl e \<Rightarrow> Inl e
      | Inr y \<Rightarrow> (case traverse f xs of Inl e \<Rightarrow> Inl e | Inr ys \<Rightarrow> Inr (y # ys)))"

text \<open>
  Modelled from the spec: the stages of every operation (section 4.5): the argument
  shape, the validation of every logical path, the resolution of every path, the
  authorization of every resolved path, and only then the OS primitive \<open>prim\<close> (with the
  registry or watcher update that follows it). The first failure is surfaced and the
  state is left as it was. \<open>keys\<close> names the path arguments of the command and the
  option that holds the token of each.
\<close>

definition dispatch ::
  "env \<Rightarrow> string \<Rightarrow> (string \<times> string) list
     \<Rightarrow> (string list list \<Rightarrow> args \<Rightarrow> 'os \<Rightarrow> (error + 'r) \<times> 'os)
     \<Rightarrow> args \<Rightarrow> 'os \<Rightarrow> (error + 'r) \<times> 'os" where
  "dispatch env cls keys prim a os =
     (case path_args keys a of
        None \<Rightarrow> (Inl (InvalidPath Malformed), os)
      | Some lps \<Rightarrow>
          (case traverse (\<lambda>(s, b). case validate s of Inl e \<Rightarrow> Inl e | Inr p \<Rightarrow> Inr (p, b)) lps of
             Inl e \<Rightarrow> (Inl e, os)
           | Inr vps \<Rightarrow>
               (case traverse (\<lambda>(p, b). locate env p b) vps of
                  Inl e \<Rightarrow> (Inl e, os)
                | Inr rps \<Rightarrow>
                    if list_ex (\<lambda>rp. \<not> authorize env rp cls) rps
                    then (Inl ScopeViolation, os)
                    else prim rps a os)))"

section \<open>The trusted side: copying and renaming\<close>

text \<open>
  Modelled from the spec: the OS primitive provider for \<open>copy\<close> and \<open>rename\<close> (section
  6), over a filesystem that maps a resolved path to the bytes of the file there. An OS
  failure is passed through as \<open>IOError\<close>, tagged with the primitive and the OS code.
\<close>

type_synonym filesystem = "(string list \<times> u8 list) list"

text \<open>
  Modelled from the spec: the OS primitive \<open>copy\<close> (section 6): the destination receives
  the content of the source; a missing source fails with \<open>IOError\<close>.
\<close>

definition os_copy :: "string list list \<Rightarrow> args \<Rightarrow> filesystem \<Rightarrow> (error + unit) \<times> filesystem" where
  "os_copy rps a fs =
     (case rps of
        [src, dst] \<Rightarrow>
          (case map_of fs src of
             None \<Rightarrow> (Inl (IOError ''copy'' ''ENOENT''), fs)
           | Some d \<Rightarrow> (Inr (), AList.update dst d fs))
      | _ \<Rightarrow> (Inl (InvalidPath Malformed), fs))"

text \<open>
  Modelled from the spec: the OS primitive \<open>rename\<close> (section 6): the file
  moves from the source to the destination.
\<close>

definition os_rename :: "string list list \<Rightarrow> args \<Rightarrow> filesystem \<Rightarrow> (error + unit) \<times> filesystem" where
  "os_rename rps a fs =
     (case rps of
        [src, dst] \<Rightarrow>
          (case map_of fs src of
             None \<Rightarrow> (Inl (IOError ''rename'' ''ENOENT''), fs)
           | Some d \<Rightarrow> (Inr (), AList.update dst d (AList.delete src fs)))
      | _ \<Rightarrow> (Inl (InvalidPath Malformed), fs))"

text \<open>
  Modelled from the spec: the commands \<^verbatim>\<open>plugin:fs|copy_file\<close> and
  \<^verbatim>\<open>plugin:fs|rename\<close> (section 4.5): both paths pass every stage of the dispatcher
  before the primitive runs.
\<close>

definition cmd_copy_file :: "env \<Rightarrow> args \<Rightarrow> filesystem \<Rightarrow> (error + unit) \<times> filesystem" where
  "cmd_copy_file env =
     dispatch env ''copy_file''
       [(''fromPath'', ''fromPathBaseDir''), (''toPath'', ''toPathBaseDir'')] os_copy"

text \<open>
  Modelled from the spec: the command \<^verbatim>\<open>plugin:fs|rename\<close> (section 4.5).
\<close>

definition cmd_rename :: "env \<Rightarrow> args \<Rightarrow> filesystem \<Rightarrow> (error + unit) \<times> filesystem" where
  "cmd_rename env =
     dispatch env ''rename''
       [(''oldPath'', ''oldPathBaseDir''), (''newPath'', ''newPathBaseDir'')] os_rename"

section \<open>The trusted side: the handle registry\<close>

text \<open>
  Modelled from the spec: an open OS file, as far as seeking reads it (the bytes of the
  file and the position of the descriptor), and the handle registry (sections 3 and
  4.3): a table from identifiers to open files and the counter identifiers are issued
  from, never reused.
\<close>

record os_file =
  f_data :: "u8 list"
  f_pos :: nat

text \<open>
  Modelled from the spec: the handle registry (section 4.3): the table and the counter.
\<close>

record registry =
  table :: "(nat \<times> os_file) list"
  next_id :: nat

text \<open>
  Modelled from the spec: \<open>register\<close> (section 4.3): a fresh identifier from the counter.
\<close>

definition register :: "os_file \<Rightarrow> registry \<Rightarrow> nat \<times> registry" where
  "register f reg =
     (next_id reg, reg\<lparr>table := table reg @ [(next_id reg, f)], next_id := next_id reg + 1\<rparr>)"

text \<open>
  Modelled from the spec: \<open>lookup\<close> (section 4.3): the handle, or \<open>NotFound\<close>.
\<close>

definition lookup :: "nat \<Rightarrow> registry \<Rightarrow> error + os_file" where
  "lookup rid reg = (case map_of (table reg) rid of None \<Rightarrow> Inl NotFound | Some f \<Rightarrow> Inr f)"

text \<open>
  Modelled from the spec: \<open>release\<close> (section 4.3): an unknown or released
  handle fails with \<open>NotFound\<close>.
\<close>

definition release :: "nat \<Rightarrow> registry \<Rightarrow> (error + unit) \<times> registry" where
  "release rid reg =
     (case map_of (table reg) rid of
        None \<Rightarrow> (Inl NotFound, reg)
      | Some f \<Rightarrow> (Inr (), reg\<lparr>table := AList.delete rid (table reg)\<rparr>))"

text \<open>
  Modelled from the spec: the OS primitive \<open>seek\<close> (sections 4.3 and 6): \<open>whence\<close> is
  one of \<open>Start\<close>, \<open>Current\<close>, \<open>End\<close>, received as 0, 1, 2; the new offset is counted
  from the start of the file, the current position or the end; a negative result fails,
  and so does any other \<open>whence\<close>.
\<close>

definition whence_of :: "int \<Rightarrow> SeekMode option" where
  "whence_of n =
     (if n = 0 then Some Start else if n = 1 then Some Current
      else if n = 2 then Some End else None)"

text \<open>
  Modelled from the spec: the absolute offset a seek asks for (section 4.3).
\<close>

definition seek_target :: "os_file \<Rightarrow> int \<Rightarrow> SeekMode \<Rightarrow> int" where
  "seek_target f offset whence =
     (case whence of
        Start \<Rightarrow> offset
      | Current \<Rightarrow> int (f_pos f) + offset
      | End \<Rightarrow> int (length (f_data f)) + offset)"

text \<open>
  Modelled from the spec: the OS primitive \<open>seek\<close> (sections 4.3 and 6): a
  negative target or an unknown \<open>whence\<close> fails.
\<close>

definition os_seek :: "os_file \<Rightarrow> int \<Rightarrow> int \<Rightarrow> string + os_file \<times> nat" where
  "os_seek f offset whence =
     (case whence_of whence of
        None \<Rightarrow> Inl ''EINVAL''
      | Some m \<Rightarrow>
          (if seek_target f offset m < 0 then Inl ''EINVAL''
           else Inr (f\<lparr>f_pos := nat (seek_target f offset m)\<rparr>, nat (seek_target f offset m))))"

text \<open>
  Modelled from the spec: the command \<^verbatim>\<open>plugin:fs|seek\<close> (section 4.3): it works
  through \<open>lookup\<close>, moves the cursor of that handle and replies the new absolute
  offset.
\<close>

definition cmd_seek :: "args \<Rightarrow> registry \<Rightarrow> (error + nat) \<times> registry" where
  "cmd_seek a reg =
     (case (map_of a ''rid'', map_of a ''offset'', map_of a ''whence'') of
        (Some (Num r), Some (Num offset), Some (Num whence)) \<Rightarrow>
          (if r < 0 then (Inl NotFound, reg)
           else
             (case lookup (nat r) reg of
                Inl e \<Rightarrow> (Inl e, reg)
              | Inr f \<Rightarrow>
                  (case os_seek f offset whence of
                     Inl code \<Rightarrow> (Inl (IOError ''seek'' code), reg)
                   | Inr (f', n) \<Rightarrow>
                       (Inr n, reg\<lparr>table := AList.update (nat r) f' (table reg)\<rparr>))))
      | _ \<Rightarrow> (Inl (InvalidPath Malformed), reg))"

section \<open>The trusted side: the directory watcher manager\<close>

text \<open>
  Modelled from the spec: change events and watch sessions (section 3). A session holds
  its resolved roots, the recursive flag, the debounce interval (zero is immediate), its
  outbound channel and the events buffered in the running window.
\<close>

datatype event_kind = Create | Modify | Remove | RenameFrom | RenameTo | Access | Other

text \<open>
  Modelled from the spec: a change event (section 3): affected paths, kind, optional
  attribute-change flag.
\<close>

record ChangeEvent =
  ev_paths :: "string list list"
  ev_kind :: event_kind
  ev_attrib :: "bool option"

text \<open>
  Modelled from the spec: a watch session (section 3).
\<close>

record session =
  s_roots :: "string list list"
  s_recursive :: bool
  s_delay :: nat
  s_channel :: nat
  s_buffer :: "ChangeEvent list"

text \<open>
  Modelled from the spec: the state of the watcher manager (section 4.4): the active
  sessions by identifier, the counter identifiers are issued from, and the batches
  emitted so far, each with the session and the channel it went out on. A session that
  is not in the table is stopped or was never started.
\<close>

record watcher =
  sessions :: "(nat \<times> session) list"
  next_session :: nat
  emitted :: "(nat \<times> nat \<times> ChangeEvent list) list"

text \<open>
  Modelled from the spec: starting a session (section 4.4). The roots reach this point
  only after all of them are resolved and authorized (\<open>dispatch\<close>), so a failure makes
  no subscription at all. An interval of \<^verbatim>\<open>null\<close> is immediate.
\<close>

definition obj_arg :: "args \<Rightarrow> string \<Rightarrow> args option" where
  "obj_arg a k = (case map_of a k of Some (Obj ps) \<Rightarrow> Some ps | _ \<Rightarrow> None)"

text \<open>
  Modelled from the spec: a channel argument of a command (section 6).
\<close>

definition chan_arg :: "args \<Rightarrow> string \<Rightarrow> nat option" where
  "chan_arg a k = (case map_of a k of Some (Chan c) \<Rightarrow> Some c | _ \<Rightarrow> None)"

text \<open>
  Modelled from the spec: the subscription that starts a session (section 4.4), with a
  fresh identifier and an empty buffer.
\<close>

definition subscribe :: "string list list \<Rightarrow> args \<Rightarrow> watcher \<Rightarrow> (error + nat) \<times> watcher" where
  "subscribe roots a ws =
     (case obj_arg a ''options'' of
        None \<Rightarrow> (Inl (InvalidPath Malformed), ws)
      | Some opts \<Rightarrow>
          (case chan_arg a ''onEvent'' of
             None \<Rightarrow> (Inl (InvalidPath Malformed), ws)
           | Some c \<Rightarrow>
               (Inr (next_session ws),
                ws\<lparr>sessions := sessions ws @
                      [(next_session ws,
                        \<lparr>s_roots = roots,
                         s_recursive =
                           (case map_of opts ''recursive'' of Some (Bool b) \<Rightarrow> b | _ \<Rightarrow> False),
                         s_delay =
                           (case map_of opts ''delayMs'' of Some (Num n) \<Rightarrow> nat n | _ \<Rightarrow> 0),
                         s_channel = c,
                         s_buffer = []\<rparr>)],
                    next_session := next_session ws + 1\<rparr>)))"

text \<open>
  Modelled from the spec: the command \<^verbatim>\<open>plugin:fs|watch\<close>
  (sections 4.4 and 4.5): all roots are resolved and authorized before the subscription.
\<close>

definition cmd_watch :: "env \<Rightarrow> args \<Rightarrow> watcher \<Rightarrow> (error + nat) \<times> watcher" where
  "cmd_watch env = dispatch env ''watch'' [(''paths'', ''baseDir'')] subscribe"

text \<open>
  Modelled from the spec: \<open>unwatch\<close> (section 4.4): the session is stopped, its
  subscriptions are released and its unflushed buffer is discarded with it; for a session
  that is stopped already or was never known this is a no-op, not an error.
\<close>

definition stop_session :: "nat \<Rightarrow> watcher \<Rightarrow> watcher" where
  "stop_session rid ws = ws\<lparr>sessions := AList.delete rid (sessions ws)\<rparr>"

text \<open>
  Modelled from the spec: the command \<^verbatim>\<open>plugin:fs|unwatch\<close>
  (section 4.4): it succeeds whether or not the session is known.
\<close>

definition cmd_unwatch :: "args \<Rightarrow> watcher \<Rightarrow> (error + unit) \<times> watcher" where
  "cmd_unwatch a ws =
     (case map_of a ''rid'' of
        Some (Num r) \<Rightarrow> (Inr (), if r < 0 then ws else stop_session (nat r) ws)
      | _ \<Rightarrow> (Inl (InvalidPath Malformed), ws))"

text \<open>
  Modelled from the spec: which sessions a raw event concerns (section 4.4): a recursive
  session sees every path under one of its roots, another session the root itself and
  its direct children.
\<close>

definition covers :: "session \<Rightarrow> string list \<Rightarrow> bool" where
  "covers s p =
     list_ex (\<lambda>root. if s_recursive s then prefix root p else p = root \<or> butlast p = root \<and> p \<noteq> [])
       (s_roots s)"

text \<open>
  Modelled from the spec: an event concerns a session when one of its paths is covered (section 4.4).
\<close>

definition concerns :: "session \<Rightarrow> ChangeEvent \<Rightarrow> bool" where
  "concerns s ev = list_ex (covers s) (ev_paths ev)"

text \<open>
  Modelled from the spec: the active state (section 4.4). A raw event goes to every
  session it concerns: out at once when the session is immediate, into the buffer
  otherwise. When the window of a session expires, its buffer, coalesced, is emitted as
  one batch and cleared. The coalescing table \<open>coalesce\<close> is left to the implementer by
  the specification and is a parameter here.
\<close>

fun deliver :: "ChangeEvent \<Rightarrow> (nat \<times> session) list
    \<Rightarrow> (nat \<times> session) list \<times> (nat \<times> nat \<times> ChangeEvent list) list" where
  "deliver ev [] = ([], [])"
| "deliver ev ((rid, s) # rest) =
     (case deliver ev rest of
        (rest', out) \<Rightarrow>
          if \<not> concerns s ev then ((rid, s) # rest', out)
          else if s_delay s = 0 then ((rid, s) # rest', (rid, s_channel s, [ev]) # out)
          else ((rid, s\<lparr>s_buffer := s_buffer s @ [ev]\<rparr>) # rest', out))"

text \<open>
  Modelled from the spec: a raw event of the OS reaches the watcher manager (section 4.4).
\<close>

definition raw_event :: "ChangeEvent \<Rightarrow> watcher \<Rightarrow> watcher" where
  "raw_event ev ws =
     (case deliver ev (sessions ws) of
        (ss, out) \<Rightarrow> ws\<lparr>sessions := ss, emitted := emitted ws @ out\<rparr>)"

text \<open>
  Modelled from the spec: the debounce window of a session expires (section 4.4): the
  coalesced buffer goes out as one batch, if it is not empty, and the buffer is cleared.
\<close>

definition timer_fire ::
  "(ChangeEvent list \<Rightarrow> ChangeEvent list) \<Rightarrow> nat \<Rightarrow> watcher \<Rightarrow> watcher" where
  "timer_fire coalesce rid ws =
     (case map_of (sessions ws) rid of
        None \<Rightarrow> ws
      | Some s \<Rightarrow>
          (if coalesce (s_buffer s) = [] then
             ws\<lparr>sessions := AList.update rid (s\<lparr>s_buffer := []\<rparr>) (sessions ws)\<rparr>
           else
             ws\<lparr>sessions := AList.update rid (s\<lparr>s_buffer := []\<rparr>) (sessions ws),
                emitted := emitted ws @ [(rid, s_channel s, coalesce (s_buffer s))]\<rparr>))"

text \<open>
  Modelled from the spec: what can happen to the watcher manager, one message at a time
  (section 9): a watch command, an unwatch command, a raw event of the OS, the timer of a
  session.
\<close>

datatype wmsg = WatchCmd args | UnwatchCmd args | RawEvent ChangeEvent | TimerFire nat

text \<open>
  Modelled from the spec: one message handled by the watcher manager (sections 4.4 and 9).
\<close>

fun wstep ::
  "env \<Rightarrow> (ChangeEvent list \<Rightarrow> ChangeEvent list) \<Rightarrow> wmsg \<Rightarrow> watcher \<Rightarrow> watcher" where
  "wstep env coalesce (WatchCmd a) ws = snd (cmd_watch env a ws)"
| "wstep env coalesce (UnwatchCmd a) ws = snd (cmd_unwatch a ws)"
| "wstep env coalesce (RawEvent ev) ws = raw_event ev ws"
| "wstep env coalesce (TimerFire rid) ws = timer_fire coalesce rid ws"

text \<open>
  Modelled from the spec: a sequence of messages handled in order (section 5: the
  mutations of the watcher state are serialized).
\<close>

fun wrun ::
  "env \<Rightarrow> (ChangeEvent list \<Rightarrow> ChangeEvent list) \<Rightarrow> wmsg list \<Rightarrow> watcher \<Rightarrow> watcher" where
  "wrun env coalesce [] ws = ws"
| "wrun env coalesce (m # ms) ws = wrun env coalesce ms (wstep env coalesce m ws)"

text \<open>The batches that went out for one session.\<close>

definition emitted_for :: "nat \<Rightarrow> watcher \<Rightarrow> (nat \<times> nat \<times> ChangeEvent list) list" where
  "emitted_for rid ws = filter (\<lambda>(r, c, evs). r = rid) (emitted ws)"

text \<open>
  Identifiers are issued from the counter: every session in the table has an identifier
  below it.
\<close>

definition issued :: "watcher \<Rightarrow> bool" where
  "issued ws = list_all (\<lambda>(r, s). r < next_session ws) (sessions ws)"

section \<open>Notions the properties are stated with\<close>

text \<open>
  A path string escapes when its path is absolute or has a \<^verbatim>\<open>..\<close> segment.
\<close>

definition escapes :: "string \<Rightarrow> bool" where
  "escapes s = (is_absolute (path_part s) \<or> ''..'' \<in> set (segments (path_part s)))"

text \<open>The rejections of a path: \<open>PathTraversal\<close> and the cases of \<open>InvalidPath\<close>.\<close>

definition path_rejection :: "error \<Rightarrow> bool" where
  "path_rejection e = (e = PathTraversal \<or> e = InvalidPath Absolute \<or> e = InvalidPath MustBeFileUrl)"

text \<open>
  A path string with its token is permitted for an operation class when it resolves and
  the resolved path is authorized.
\<close>

definition permitted :: "env \<Rightarrow> string \<Rightarrow> string \<Rightarrow> int option \<Rightarrow> bool" where
  "permitted env cls s base =
     (case resolve env s base of Inl e \<Rightarrow> False | Inr rp \<Rightarrow> authorize env rp cls)"

text \<open>
  What the caller's options object holds under a name: nothing when the options are left
  out or have no such property. A name written twice in an object has the value written
  last.
\<close>

definition supplied :: "args option \<Rightarrow> string \<Rightarrow> jsval option" where
  "supplied options k = (case options of None \<Rightarrow> None | Some kvs \<Rightarrow> map_of (rev kvs) k)"

text \<open>
  A session identifier is quiet when it has been issued and no session is active under
  it: the session was stopped.
\<close>

definition quiet :: "nat \<Rightarrow> watcher \<Rightarrow> bool" where
  "quiet rid ws = (issued ws \<and> rid < next_session ws \<and> map_of (sessions ws) rid = None)"

text \<open>
  An environment to run the trusted side in: the application's directory is the root of
  token 14 and the implicit root; everything under it is allowed, except what lies under
  its \<^verbatim>\<open>secret\<close> directory.
\<close>

definition app_env :: env where
  "app_env = \<lparr>base_dir = (\<lambda>t. if t = 14 then Some [''home'', ''u'', ''app''] else None),
              implicit_root = [''home'', ''u'', ''app''],
              allow = (\<lambda>cls. [[BaseVar 14, AnySegments]]),
              deny = (\<lambda>cls. [[BaseVar 14, Lit ''secret'', AnySegments]])\<rparr>"

section \<open>Properties of the front end\<close>

lemma invoke_calls:
  "calls (snd (invoke h cmd a w)) = calls w @ [(cmd, a)]"
  by (simp add: invoke_def split: prod.splits)

lemma invoke_backend:
  "backend (snd (invoke h cmd a w)) = snd (h a (backend w))"
  by (simp add: invoke_def split: prod.splits)

lemma invoke_no_throw:
  "fst (invoke h cmd a w) \<noteq> Inl (TypeError m)"
  by (simp add: invoke_def split: prod.splits sum.splits)

lemma returning_fst:
  "fst (returning f res) \<noteq> Inl e \<longleftrightarrow> fst res \<noteq> Inl e"
  by (simp add: returning_def split: prod.splits sum.splits)

lemma returning_snd: "snd (returning f res) = snd res"
  by (simp add: returning_def split: prod.splits sum.splits)

subsection \<open>Reading through a handle\<close>

text \<open>
  C4. A read into a buffer of length zero resolves to 0 at once: the trusted side is not
  called, whatever command stands behind \<^verbatim>\<open>plugin:fs|read\<close>, and neither the log of
  calls, the state of the trusted side nor the buffer changes.
\<close>

theorem read_zero_length_no_invoke:
  "read h this [] w = (Inr (Some 0, []), w)"
  by (simp add: read_def)

text \<open>
  C5. For a buffer that is not empty and a reply \<open>(data, nread)\<close> of the trusted side
  that fits the buffer, the read resolves to the end-of-file marker \<^verbatim>\<open>null\<close> exactly
  when \<open>nread\<close> is 0 and to \<open>nread\<close>, which is positive, otherwise; the bytes of the
  reply are then in the caller's buffer from index 0. The marker is never the 0 a
  zero-length read resolves to.
\<close>

theorem read_eof_or_count:
  assumes "buffer \<noteq> []"
    and "h [(''rid'', Num (int (fh_rid this))), (''len'', Num (int (length buffer)))] (backend w)
           = (Inr (data, nread), b')"
    and "length data \<le> length buffer"
  shows "read h this buffer w =
           (Inr (if nread = 0 then None else Some nread,
                 map of_nat data @ drop (length data) buffer),
            w\<lparr>backend := b',
              calls := calls w @
                [(''plugin:fs|read'',
                  [(''rid'', Num (int (fh_rid this))), (''len'', Num (int (length buffer)))])]\<rparr>)
         \<and> (if nread = 0 then None else Some nread) \<noteq> Some 0"
  using assms by (simp add: read_def invoke_def buffer_set_def)

theorem read_eof_or_count_witness:
  "read (\<lambda>a b. (Inr ([104, 105], 2), b)) \<lparr>fh_rid = 3\<rparr> [0, 0, 0, 7]
        \<lparr>backend = 0 :: nat, calls = [], channels = ([] :: nat list)\<rparr>
     = (Inr (Some 2, [104, 105, 0, 7]) :: error js_error + nat option \<times> u8 list,
        \<lparr>backend = 0, calls = [(''plugin:fs|read'', [(''rid'', Num 3), (''len'', Num 4)])],
         channels = []\<rparr>)
   \<and> read (\<lambda>a b. (Inr ([], 0), b)) \<lparr>fh_rid = 3\<rparr> [0, 0, 0, 7]
        \<lparr>backend = 0 :: nat, calls = [], channels = ([] :: nat list)\<rparr>
     = (Inr (None, [0, 0, 0, 7]) :: error js_error + nat option \<times> u8 list,
        \<lparr>backend = 0, calls = [(''plugin:fs|read'', [(''rid'', Num 3), (''len'', Num 4)])],
         channels = []\<rparr>)"
proof -
  let ?w = "\<lparr>backend = 0 :: nat, calls = [], channels = ([] :: nat list)\<rparr>"
  let ?buf = "[0, 0, 0, 7] :: u8 list"
  note some = read_eof_or_count [where h = "\<lambda>a b. (Inr ([104, 105], 2) :: error + nat list \<times> nat, b)"
      and buffer = ?buf and this = "\<lparr>fh_rid = 3\<rparr>" and w = ?w and data = "[104, 105]"
      and nread = 2 and b' = 0]
  note eof = read_eof_or_count [where h = "\<lambda>a b. (Inr ([], 0) :: error + nat list \<times> nat, b)"
      and buffer = ?buf and this = "\<lparr>fh_rid = 3\<rparr>" and w = ?w and data = "[]"
      and nread = 0 and b' = 0]
  have a: "read (\<lambda>a b. (Inr ([104, 105], 2), b)) \<lparr>fh_rid = 3\<rparr> ?buf ?w
     = (Inr (Some 2, [104, 105, 0, 7]) :: error js_error + nat option \<times> u8 list,
        \<lparr>backend = 0, calls = [(''plugin:fs|read'', [(''rid'', Num 3), (''len'', Num 4)])],
         channels = []\<rparr>)"
    using some by simp
  have b: "read (\<lambda>a b. (Inr ([], 0), b)) \<lparr>fh_rid = 3\<rparr> ?buf ?w
     = (Inr (None, [0, 0, 0, 7]) :: error js_error + nat option \<times> u8 list,
        \<lparr>backend = 0, calls = [(''plugin:fs|read'', [(''rid'', Num 3), (''len'', Num 4)])],
         channels = []\<rparr>)"
    using eof by simp
  from a b show ?thesis by simp
qed

text \<open>
  A reply longer than the buffer is outside C5: \<^verbatim>\<open>buffer.set\<close> throws, after the
  trusted side has been called.
\<close>

lemma read_reply_too_long:
  assumes "buffer \<noteq> []"
    and "h [(''rid'', Num (int (fh_rid this))), (''len'', Num (int (length buffer)))] (backend w)
           = (Inr (data, nread), b')"
    and "length buffer < length data"
  shows "fst (read h this buffer w) = Inl (RangeError ''offset is out of bounds'')"
  using assms by (simp add: read_def invoke_def buffer_set_def)

subsection \<open>The file-URL test\<close>

text \<open>
  C2. \<^verbatim>\<open>stat\<close>, given the URL \<^verbatim>\<open>http://example.com/a\<close>, does not throw
  \<^verbatim>\<open>TypeError("Must be a file URL.")\<close>: it calls \<^verbatim>\<open>plugin:fs|stat\<close> with the URL's
  string as the path. Every other operation that takes a path throws before it calls
  anything (see C8), so for "every operation that accepts a path" the claim does not
  hold of the code.
\<close>

theorem stat_forwards_http_url:
  "fst (stat h (PathUrl \<lparr>protocol = ''http:'', href = ''http://example.com/a''\<rparr>) Undefined w)
     \<noteq> Inl (TypeError ''Must be a file URL.'')
   \<and> calls (snd (stat h (PathUrl \<lparr>protocol = ''http:'', href = ''http://example.com/a''\<rparr>)
                  Undefined w))
     = calls w @
         [(''plugin:fs|stat'', [(''path'', Str ''http://example.com/a''), (''options'', Undefined)])]"
  by (simp add: stat_def returning_fst returning_snd invoke_no_throw invoke_calls)

text \<open>
  C8. \<^verbatim>\<open>stat\<close> and \<^verbatim>\<open>lstat\<close> make no file-scheme test: for a URL of any protocol
  they do not throw \<^verbatim>\<open>TypeError("Must be a file URL.")\<close> but invoke their command with
  the URL's string as the path. Every other operation that takes a path, given a URL whose
  protocol is not \<^verbatim>\<open>file:\<close> (for the operations on two paths: in either place), throws
  that error and leaves the world as it was, so that nothing is invoked.
\<close>

theorem stat_lstat_skip_file_url_check:
  "(fst (stat h (PathUrl u) options w) \<noteq> Inl (TypeError ''Must be a file URL.'')
    \<and> calls (snd (stat h (PathUrl u) options w))
        = calls w @ [(''plugin:fs|stat'', [(''path'', Str (href u)), (''options'', options)])])
   \<and> (fst (lstat h (PathUrl u) options w) \<noteq> Inl (TypeError ''Must be a file URL.'')
    \<and> calls (snd (lstat h (PathUrl u) options w))
        = calls w @ [(''plugin:fs|lstat'', [(''path'', Str (href u)), (''options'', options)])])
   \<and> (protocol u \<noteq> ''file:'' \<longrightarrow>
        create hn (PathUrl u) options w = (Inl (TypeError ''Must be a file URL.''), w)
      \<and> open_file hn (PathUrl u) options w = (Inl (TypeError ''Must be a file URL.''), w)
      \<and> copyFile hr (PathUrl u) p options w = (Inl (TypeError ''Must be a file URL.''), w)
      \<and> copyFile hr p (PathUrl u) options w = (Inl (TypeError ''Must be a file URL.''), w)
      \<and> mkdir hr (PathUrl u) options w = (Inl (TypeError ''Must be a file URL.''), w)
      \<and> readDir hr (PathUrl u) options w = (Inl (TypeError ''Must be a file URL.''), w)
      \<and> readFile hb (PathUrl u) options w = (Inl (TypeError ''Must be a file URL.''), w)
      \<and> readTextFile hr (PathUrl u) options w = (Inl (TypeError ''Must be a file URL.''), w)
      \<and> readTextFileLines (PathUrl u) options w = (Inl (TypeError ''Must be a file URL.''), w)
      \<and> remove_path hr (PathUrl u) options w = (Inl (TypeError ''Must be a file URL.''), w)
      \<and> rename hr (PathUrl u) p options w = (Inl (TypeError ''Must be a file URL.''), w)
      \<and> rename hr p (PathUrl u) options w = (Inl (TypeError ''Must be a file URL.''), w)
      \<and> truncate_path hr (PathUrl u) len options w = (Inl (TypeError ''Must be a file URL.''), w)
      \<and> writeFile hr (PathUrl u) bytes options w = (Inl (TypeError ''Must be a file URL.''), w)
      \<and> writeTextFile hr (PathUrl u) content options w = (Inl (TypeError ''Must be a file URL.''), w)
      \<and> exists_path hr (PathUrl u) options w = (Inl (TypeError ''Must be a file URL.''), w)
      \<and> watch hn hr (OnePath (PathUrl u)) cb wopts w = (Inl (TypeError ''Must be a file URL.''), w)
      \<and> watchImmediate hn hr (OnePath (PathUrl u)) cb wopts w
          = (Inl (TypeError ''Must be a file URL.''), w))"
proof (intro conjI impI)
  show "fst (stat h (PathUrl u) options w) \<noteq> Inl (TypeError ''Must be a file URL.'')"
    by (simp add: stat_def returning_fst invoke_no_throw)
  show "calls (snd (stat h (PathUrl u) options w))
        = calls w @ [(''plugin:fs|stat'', [(''path'', Str (href u)), (''options'', options)])]"
    by (simp add: stat_def returning_snd invoke_calls)
  show "fst (lstat h (PathUrl u) options w) \<noteq> Inl (TypeError ''Must be a file URL.'')"
    by (simp add: lstat_def returning_fst invoke_no_throw)
  show "calls (snd (lstat h (PathUrl u) options w))
        = calls w @ [(''plugin:fs|lstat'', [(''path'', Str (href u)), (''options'', options)])]"
    by (simp add: lstat_def returning_snd invoke_calls)
qed (simp_all add: create_def open_file_def copyFile_def mkdir_def readDir_def readFile_def
      readTextFile_def readTextFileLines_def remove_path_def rename_def truncate_path_def
      writeFile_def writeTextFile_def exists_path_def watch_def watchImmediate_def)

theorem stat_lstat_skip_file_url_check_witness:
  "calls (snd (stat (\<lambda>a b. (Inl NotFound, b)) (PathUrl \<lparr>protocol = ''https:'', href = ''https://h/x''\<rparr>)
            Undefined \<lparr>backend = 0 :: nat, calls = [], channels = ([] :: nat list)\<rparr>))
     = [(''plugin:fs|stat'', [(''path'', Str ''https://h/x''), (''options'', Undefined)])]
   \<and> calls (snd (lstat (\<lambda>a b. (Inl NotFound, b)) (PathUrl \<lparr>protocol = ''https:'', href = ''https://h/x''\<rparr>)
            Undefined \<lparr>backend = 0 :: nat, calls = [], channels = ([] :: nat list)\<rparr>))
     = [(''plugin:fs|lstat'', [(''path'', Str ''https://h/x''), (''options'', Undefined)])]
   \<and> exists_path (\<lambda>a b. (Inl NotFound, b)) (PathUrl \<lparr>protocol = ''https:'', href = ''https://h/x''\<rparr>)
            Undefined \<lparr>backend = 0 :: nat, calls = [], channels = ([] :: nat list)\<rparr>
     = (Inl (TypeError ''Must be a file URL.'') :: error js_error + bool,
        \<lparr>backend = 0, calls = [], channels = []\<rparr>)"
proof -
  let ?u = "\<lparr>protocol = ''https:'', href = ''https://h/x''\<rparr>"
  let ?w = "\<lparr>backend = 0 :: nat, calls = [], channels = ([] :: nat list)\<rparr>"
  have np: "protocol ?u \<noteq> ''file:''" by simp
  note t = stat_lstat_skip_file_url_check [where u = ?u and options = Undefined and w = ?w
      and h = "\<lambda>a b. (Inl NotFound, b)" and hr = "\<lambda>a b. (Inl NotFound :: error + bool, b)"
      and hn = "\<lambda>a b. (Inl NotFound, b)" and hb = "\<lambda>a b. (Inl NotFound, b)" and p = "PathStr []"
      and len = None and bytes = "[]" and content = "[]" and wopts = None and cb = 0]
  from t np show ?thesis by (elim conjE impE) simp_all
qed

subsection \<open>The options of a watch\<close>

lemma map_of_create_property:
  "map_of obj k = None \<Longrightarrow>
     map_of (create_property k v obj) x = (if x = k then Some v else map_of obj x)"
  by (induction obj) (auto split: if_splits)

lemma map_of_set_property:
  "map_of (set_property k v obj) x = (if x = k then Some v else map_of obj x)"
  by (cases "map_of obj k") (simp_all add: set_property_def map_of_create_property update_conv')

lemma create_property_keys:
  "fst ` set (create_property k v obj) = insert k (fst ` set obj)"
proof (induction obj)
  case Nil
  show ?case by simp
next
  case (Cons p ps)
  obtain k' v' where p: "p = (k', v')" by (cases p)
  show ?case
  proof (cases "precedes k k'")
    case True
    with p show ?thesis by simp
  next
    case False
    with p have "fst ` set (create_property k v (p # ps))
                   = insert k' (fst ` set (create_property k v ps))"
      by simp
    with Cons.IH p show ?thesis by auto
  qed
qed

lemma distinct_create_property:
  "distinct (map fst obj) \<Longrightarrow> k \<notin> fst ` set obj \<Longrightarrow>
     distinct (map fst (create_property k v obj))"
  by (induction obj) (auto simp: create_property_keys)

lemma distinct_set_property:
  assumes "distinct (map fst obj)"
  shows "distinct (map fst (set_property k v obj))"
proof (cases "map_of obj k")
  case None
  then have "k \<notin> fst ` set obj" by (simp add: map_of_eq_None_iff)
  from distinct_create_property [OF assms this] None show ?thesis
    by (simp add: set_property_def)
next
  case (Some u)
  with assms show ?thesis by (simp add: set_property_def distinct_update)
qed

lemma map_of_fold_set_property:
  "map_of (fold (\<lambda>(k, v). set_property k v) kvs obj) x =
     (case map_of (rev kvs) x of None \<Rightarrow> map_of obj x | Some v \<Rightarrow> Some v)"
proof (induction kvs arbitrary: obj)
  case Nil
  show ?case by simp
next
  case (Cons p kvs)
  obtain k v where p: "p = (k, v)" by (cases p)
  show ?case
    using Cons.IH [of "set_property k v obj"] p
    by (simp add: map_of_set_property map_of_append map_add_def split: option.splits)
qed

lemma distinct_fold_set_property:
  "distinct (map fst obj) \<Longrightarrow> distinct (map fst (fold (\<lambda>(k, v). set_property k v) kvs obj))"
  by (induction kvs arbitrary: obj) (auto simp: distinct_set_property)

lemma map_of_spread:
  "map_of (spread obj options) k =
     (case supplied options k of None \<Rightarrow> map_of obj k | Some v \<Rightarrow> Some v)"
  by (cases options) (simp_all add: spread_def supplied_def map_of_fold_set_property)

lemma distinct_spread:
  "distinct (map fst obj) \<Longrightarrow> distinct (map fst (spread obj options))"
  by (cases options) (simp_all add: spread_def distinct_fold_set_property)

lemma watch_call:
  "\<not> list_ex not_file_url (watchPaths paths) \<Longrightarrow>
   calls (snd (watch h hu paths cb options w)) =
     calls w @ [(''plugin:fs|watch'',
        [(''paths'', Arr (map (\<lambda>p. Str (path_to_string p)) (watchPaths paths))),
         (''options'', Obj (watch_opts options)),
         (''onEvent'', Chan (length (channels w)))])]"
  by (simp add: watch_def returning_snd invoke_calls)

lemma watchImmediate_call:
  "\<not> list_ex not_file_url (watchPaths paths) \<Longrightarrow>
   calls (snd (watchImmediate h hu paths cb options w)) =
     calls w @ [(''plugin:fs|watch'',
        [(''paths'', Arr (map (\<lambda>p. Str (path_to_string p)) (watchPaths paths))),
         (''options'', Obj (watchImmediate_opts options)),
         (''onEvent'', Chan (length (channels w)))])]"
  by (simp add: watchImmediate_def returning_snd invoke_calls)

lemma watch_opts_property:
  "map_of (watch_opts options) k =
     (case supplied options k of
        Some v \<Rightarrow> Some v
      | None \<Rightarrow> map_of [(''recursive'', Bool False), (''delayMs'', Num 2000)] k)"
  by (simp add: watch_opts_def map_of_spread split: option.splits)

lemma watchImmediate_opts_property:
  "map_of (watchImmediate_opts options) k =
     (if k = ''delayMs'' then Some Null
      else case supplied options k of
             Some v \<Rightarrow> Some v
           | None \<Rightarrow> map_of [(''recursive'', Bool False)] k)"
  by (simp add: watchImmediate_opts_def map_of_set_property map_of_spread split: option.splits)

text \<open>
  C9. When no path is refused, \<^verbatim>\<open>watch\<close> sends \<open>watch_opts options\<close> and
  \<^verbatim>\<open>watchImmediate\<close> sends \<open>watchImmediate_opts options\<close> as the options of
  \<^verbatim>\<open>plugin:fs|watch\<close>. In the first, \<^verbatim>\<open>delayMs\<close> is what the caller's options hold
  under that name, and 2000 when they hold nothing; in the second, \<^verbatim>\<open>delayMs\<close> is
  \<^verbatim>\<open>null\<close> whatever the caller's options hold. In both, \<^verbatim>\<open>recursive\<close> is what the
  caller's options hold, and \<^verbatim>\<open>false\<close> when they hold nothing; every other property is
  the caller's, and no name occurs twice.
\<close>

theorem watch_delay_defaults:
  "(\<not> list_ex not_file_url (watchPaths paths) \<longrightarrow>
      calls (snd (watch h hu paths cb options w)) =
        calls w @ [(''plugin:fs|watch'',
          [(''paths'', Arr (map (\<lambda>p. Str (path_to_string p)) (watchPaths paths))),
           (''options'', Obj (watch_opts options)),
           (''onEvent'', Chan (length (channels w)))])]
    \<and> calls (snd (watchImmediate h hu paths cb options w)) =
        calls w @ [(''plugin:fs|watch'',
          [(''paths'', Arr (map (\<lambda>p. Str (path_to_string p)) (watchPaths paths))),
           (''options'', Obj (watchImmediate_opts options)),
           (''onEvent'', Chan (length (channels w)))])])
   \<and> map_of (watch_opts options) ''delayMs''
       = Some (case supplied options ''delayMs'' of None \<Rightarrow> Num 2000 | Some v \<Rightarrow> v)
   \<and> map_of (watchImmediate_opts options) ''delayMs'' = Some Null
   \<and> map_of (watch_opts options) ''recursive''
       = Some (case supplied options ''recursive'' of None \<Rightarrow> Bool False | Some v \<Rightarrow> v)
   \<and> map_of (watchImmediate_opts options) ''recursive''
       = Some (case supplied options ''recursive'' of None \<Rightarrow> Bool False | Some v \<Rightarrow> v)
   \<and> (k \<noteq> ''delayMs'' \<and> k \<noteq> ''recursive'' \<longrightarrow>
        map_of (watch_opts options) k = supplied options k
      \<and> map_of (watchImmediate_opts options) k = supplied options k)
   \<and> distinct (map fst (watch_opts options))
   \<and> distinct (map fst (watchImmediate_opts options))"
proof (intro conjI impI)
  assume ok: "\<not> list_ex not_file_url (watchPaths paths)"
  from watch_call [OF ok]
  show "calls (snd (watch h hu paths cb options w)) =
        calls w @ [(''plugin:fs|watch'',
          [(''paths'', Arr (map (\<lambda>p. Str (path_to_string p)) (watchPaths paths))),
           (''options'', Obj (watch_opts options)),
           (''onEvent'', Chan (length (channels w)))])]" .
  from watchImmediate_call [OF ok]
  show "calls (snd (watchImmediate h hu paths cb options w)) =
        calls w @ [(''plugin:fs|watch'',
          [(''paths'', Arr (map (\<lambda>p. Str (path_to_string p)) (watchPaths paths))),
           (''options'', Obj (watchImmediate_opts options)),
           (''onEvent'', Chan (length (channels w)))])]" .
next
  show "map_of (watch_opts options) ''delayMs''
       = Some (case supplied options ''delayMs'' of None \<Rightarrow> Num 2000 | Some v \<Rightarrow> v)"
    by (simp add: watch_opts_property split: option.splits)
next
  show "map_of (watchImmediate_opts options) ''delayMs'' = Some Null"
    by (simp add: watchImmediate_opts_property)
next
  show "map_of (watch_opts options) ''recursive''
       = Some (case supplied options ''recursive'' of None \<Rightarrow> Bool False | Some v \<Rightarrow> v)"
    by (simp add: watch_opts_property split: option.splits)
next
  show "map_of (watchImmediate_opts options) ''recursive''
       = Some (case supplied options ''recursive'' of None \<Rightarrow> Bool False | Some v \<Rightarrow> v)"
    by (simp add: watchImmediate_opts_property split: option.splits)
next
  assume k: "k \<noteq> ''delayMs'' \<and> k \<noteq> ''recursive''"
  then show "map_of (watch_opts options) k = supplied options k"
    by (simp add: watch_opts_property split: option.splits)
  from k show "map_of (watchImmediate_opts options) k = supplied options k"
    by (simp add: watchImmediate_opts_property split: option.splits)
next
  show "distinct (map fst (watch_opts options))"
    by (simp add: watch_opts_def distinct_spread)
next
  show "distinct (map fst (watchImmediate_opts options))"
    by (simp add: watchImmediate_opts_def distinct_set_property distinct_spread)
qed

theorem watch_delay_defaults_witness:
  "calls (snd (watch (\<lambda>a b. (Inr 5 :: error + nat, b)) (\<lambda>a b. (Inr True :: error + bool, b))
                 (OnePath (PathStr ''logs'')) (0 :: nat)
                 None \<lparr>backend = 0 :: nat, calls = [], channels = []\<rparr>))
     = [(''plugin:fs|watch'',
         [(''paths'', Arr [Str ''logs'']),
          (''options'', Obj [(''recursive'', Bool False), (''delayMs'', Num 2000)]),
          (''onEvent'', Chan 0)])]
   \<and> calls (snd (watch (\<lambda>a b. (Inr 5 :: error + nat, b)) (\<lambda>a b. (Inr True :: error + bool, b))
                 (OnePath (PathStr ''logs'')) (0 :: nat)
                 (Some [(''delayMs'', Num 500), (''tag'', Str ''t''), (''7'', Bool True)])
                 \<lparr>backend = 0 :: nat, calls = [], channels = []\<rparr>))
     = [(''plugin:fs|watch'',
         [(''paths'', Arr [Str ''logs'']),
          (''options'', Obj [(''7'', Bool True), (''recursive'', Bool False),
                             (''delayMs'', Num 500), (''tag'', Str ''t'')]),
          (''onEvent'', Chan 0)])]
   \<and> calls (snd (watchImmediate (\<lambda>a b. (Inr 5 :: error + nat, b))
                 (\<lambda>a b. (Inr True :: error + bool, b)) (OnePath (PathStr ''logs''))
                 (0 :: nat)
                 (Some [(''delayMs'', Num 500), (''tag'', Str ''t''), (''7'', Bool True)])
                 \<lparr>backend = 0 :: nat, calls = [], channels = []\<rparr>))
     = [(''plugin:fs|watch'',
         [(''paths'', Arr [Str ''logs'']),
          (''options'', Obj [(''7'', Bool True), (''recursive'', Bool False),
                             (''delayMs'', Null), (''tag'', Str ''t'')]),
          (''onEvent'', Chan 0)])]
   \<and> map_of (watch_opts None) ''delayMs'' = Some (Num 2000)
   \<and> map_of (watch_opts (Some [(''delayMs'', Num 500), (''tag'', Str ''t''), (''7'', Bool True)]))
        ''delayMs'' = Some (Num 500)
   \<and> map_of (watch_opts (Some [(''delayMs'', Undefined)])) ''delayMs'' = Some Undefined
   \<and> map_of (watch_opts (Some [(''recursive'', Bool True)])) ''recursive'' = Some (Bool True)
   \<and> map_of (watchImmediate_opts
               (Some [(''delayMs'', Num 500), (''tag'', Str ''t''), (''7'', Bool True)]))
        ''delayMs'' = Some Null
   \<and> map_of (watchImmediate_opts
               (Some [(''delayMs'', Num 500), (''tag'', Str ''t''), (''7'', Bool True)]))
        ''recursive'' = Some (Bool False)
   \<and> map_of (watchImmediate_opts
               (Some [(''delayMs'', Num 500), (''tag'', Str ''t''), (''7'', Bool True)]))
        ''tag'' = Some (Str ''t'')"
proof -
  let ?w = "\<lparr>backend = 0 :: nat, calls = [], channels = ([] :: nat list)\<rparr>"
  let ?h = "\<lambda>(a :: args) (b :: nat). (Inr 5 :: error + nat, b)"
  let ?hu = "\<lambda>(a :: args) (b :: nat). (Inr True :: error + bool, b)"
  let ?o = "Some [(''delayMs'', Num 500), (''tag'', Str ''t''), (''7'', Bool True)]"
  have ok: "\<not> list_ex not_file_url (watchPaths (OnePath (PathStr ''logs'')))" by simp
  have k: "''tag'' \<noteq> ''delayMs'' \<and> ''tag'' \<noteq> ''recursive''" by simp
  note t1 = watch_delay_defaults [where paths = "OnePath (PathStr ''logs'')" and options = None
      and w = ?w and cb = 0 and h = ?h and hu = ?hu and k = "''tag''"]
  note t2 = watch_delay_defaults [where paths = "OnePath (PathStr ''logs'')" and options = ?o
      and w = ?w and cb = 0 and h = ?h and hu = ?hu and k = "''tag''"]
  note t3 = watch_delay_defaults [where paths = "OnePath (PathStr ''logs'')"
      and options = "Some [(''delayMs'', Undefined)]"
      and w = ?w and cb = 0 and h = ?h and hu = ?hu and k = "''tag''"]
  note t4 = watch_delay_defaults [where paths = "OnePath (PathStr ''logs'')"
      and options = "Some [(''recursive'', Bool True)]"
      and w = ?w and cb = 0 and h = ?h and hu = ?hu and k = "''tag''"]
  have s1: "supplied None ''delayMs'' = None" by (simp add: supplied_def)
  have s2: "supplied ?o ''delayMs'' = Some (Num 500)" "supplied ?o ''recursive'' = None"
    "supplied ?o ''tag'' = Some (Str ''t'')"
    by (simp_all add: supplied_def)
  have s3: "supplied (Some [(''delayMs'', Undefined)]) ''delayMs'' = Some Undefined"
    by (simp add: supplied_def)
  have s4: "supplied (Some [(''recursive'', Bool True)]) ''recursive'' = Some (Bool True)"
    by (simp add: supplied_def)
  have o1: "watch_opts None = [(''recursive'', Bool False), (''delayMs'', Num 2000)]"
    by (simp add: watch_opts_def spread_def)
  have ai: "array_index ''7'' = Some 7" "array_index ''tag'' = None"
    "array_index ''recursive'' = None" "array_index ''delayMs'' = None"
    by (simp_all add: array_index_def is_digit_def)
  have o2: "watch_opts ?o = [(''7'', Bool True), (''recursive'', Bool False),
                             (''delayMs'', Num 500), (''tag'', Str ''t'')]"
    by (simp add: watch_opts_def spread_def set_property_def precedes_def ai)
  have o3: "watchImmediate_opts ?o = [(''7'', Bool True), (''recursive'', Bool False),
                                      (''delayMs'', Null), (''tag'', Str ''t'')]"
    by (simp add: watchImmediate_opts_def spread_def set_property_def precedes_def ai)
  from t1 ok have a:
    "calls (snd (watch ?h ?hu (OnePath (PathStr ''logs'')) (0 :: nat) None ?w))
       = [(''plugin:fs|watch'',
           [(''paths'', Arr [Str ''logs'']), (''options'', Obj (watch_opts None)),
            (''onEvent'', Chan 0)])]"
    by (elim conjE) simp_all
  from t1 have a': "map_of (watch_opts None) ''delayMs'' = Some (Num 2000)"
    by (elim conjE) (simp_all add: s1)
  from t2 ok have b:
    "calls (snd (watch ?h ?hu (OnePath (PathStr ''logs'')) (0 :: nat) ?o ?w))
       = [(''plugin:fs|watch'',
           [(''paths'', Arr [Str ''logs'']), (''options'', Obj (watch_opts ?o)),
            (''onEvent'', Chan 0)])]"
    "calls (snd (watchImmediate ?h ?hu (OnePath (PathStr ''logs'')) (0 :: nat) ?o ?w))
       = [(''plugin:fs|watch'',
           [(''paths'', Arr [Str ''logs'']), (''options'', Obj (watchImmediate_opts ?o)),
            (''onEvent'', Chan 0)])]"
    by (elim conjE, simp)+
  from t2 k have c:
    "map_of (watch_opts ?o) ''delayMs'' = Some (Num 500)"
    "map_of (watchImmediate_opts ?o) ''delayMs'' = Some Null"
    "map_of (watchImmediate_opts ?o) ''recursive'' = Some (Bool False)"
    "map_of (watchImmediate_opts ?o) ''tag'' = Some (Str ''t'')"
    by (elim conjE impE, simp_all add: s2)+
  from t3 have d: "map_of (watch_opts (Some [(''delayMs'', Undefined)])) ''delayMs'' = Some Undefined"
    by (elim conjE) (simp_all add: s3)
  from t4 have e: "map_of (watch_opts (Some [(''recursive'', Bool True)])) ''recursive''
                     = Some (Bool True)"
    by (elim conjE) (simp_all add: s4)
  from a a' b c d e show ?thesis unfolding o1 o2 o3 by (intro conjI)
qed

subsection \<open>The iterator over the lines of a file\<close>

lemma lines_next_fresh:
  assumes "it_rid this = None"
    and "h [(''path'', Str (it_path this)), (''options'', it_options this)] (backend w)
           = (Inr rid, bo)"
    and "hn [(''rid'', Num (int rid))] bo = (Inr (line, dn), bn)"
  shows "lines_next h hn this w =
           (Inr \<lparr>it_value = (if dn then Some [] else line), it_done = dn\<rparr>,
            (if dn then this else this\<lparr>it_rid := Some rid\<rparr>),
            w\<lparr>backend := bn,
              calls := calls w @
                [(''plugin:fs|read_text_file_lines'',
                  [(''path'', Str (it_path this)), (''options'', it_options this)]),
                 (''plugin:fs|read_text_file_lines_next'', [(''rid'', Num (int rid))])]\<rparr>)"
  using assms by (simp add: lines_next_def lines_open_def invoke_def)

lemma lines_next_opened:
  assumes "it_rid this = Some r"
    and "hn [(''rid'', Num (int r))] (backend w) = (Inr (line, dn), bn)"
  shows "lines_next h hn this w =
           (Inr \<lparr>it_value = (if dn then Some [] else line), it_done = dn\<rparr>,
            (if dn then this\<lparr>it_rid := None\<rparr> else this),
            w\<lparr>backend := bn,
              calls := calls w @
                [(''plugin:fs|read_text_file_lines_next'', [(''rid'', Num (int r))])]\<rparr>)"
  using assms by (simp add: lines_next_def lines_open_def invoke_def)

lemma lines_next_open_rejected:
  assumes "it_rid this = None"
    and "h [(''path'', Str (it_path this)), (''options'', it_options this)] (backend w)
           = (Inl e, bo)"
  shows "lines_next h hn this w =
           (Inl (Rejected e), this,
            w\<lparr>backend := bo,
              calls := calls w @
                [(''plugin:fs|read_text_file_lines'',
                  [(''path'', Str (it_path this)), (''options'', it_options this)])]\<rparr>)"
  using assms by (simp add: lines_next_def lines_open_def invoke_def)

lemma lines_next_rejected:
  assumes "it_rid this = Some r"
    and "hn [(''rid'', Num (int r))] (backend w) = (Inl e, bn)"
  shows "lines_next h hn this w =
           (Inl (Rejected e), this,
            w\<lparr>backend := bn,
              calls := calls w @
                [(''plugin:fs|read_text_file_lines_next'', [(''rid'', Num (int r))])]\<rparr>)"
  using assms by (simp add: lines_next_def lines_open_def invoke_def)

text \<open>
  C10. \<^verbatim>\<open>readTextFileLines\<close> calls nothing on the trusted side and resolves to an
  iterator \<open>it0\<close> on the path and options given whose \<^verbatim>\<open>rid\<close> is \<^verbatim>\<open>null\<close>.
  A \<^verbatim>\<open>next()\<close> of \<open>it0\<close> calls \<^verbatim>\<open>plugin:fs|read_text_file_lines\<close> on that path and
  those options and then \<^verbatim>\<open>plugin:fs|read_text_file_lines_next\<close> on the \<^verbatim>\<open>rid\<close> it
  got; a \<^verbatim>\<open>next()\<close> of the iterator that holds a \<^verbatim>\<open>rid\<close> calls only the second. In
  both, a reply \<^verbatim>\<open>[line, false]\<close> is yielded as \<^verbatim>\<open>{ value: line, done: false }\<close> and the
  iterator holds the \<^verbatim>\<open>rid\<close> afterwards; a reply \<^verbatim>\<open>[line, true]\<close> is yielded as
  \<^verbatim>\<open>{ value: "", done: true }\<close> and the iterator is \<open>it0\<close> again, whose \<^verbatim>\<open>next()\<close> opens
  the file anew: after a \<^verbatim>\<open>next()\<close> that reported \<^verbatim>\<open>done\<close>, the following \<^verbatim>\<open>next()\<close> calls
  \<^verbatim>\<open>plugin:fs|read_text_file_lines\<close> again and yields the first reply on the new \<^verbatim>\<open>rid\<close>.
\<close>

theorem readTextFileLines_lazy_restartable:
  assumes "readTextFileLines path options w0 = (Inr it0, w0')"
  shows "w0' = w0
       \<and> it0 = \<lparr>it_path = path_to_string path, it_rid = None, it_options = options\<rparr>
       \<and> (h [(''path'', Str (path_to_string path)), (''options'', options)] (backend w)
              = (Inr rid, bo)
            \<and> hn [(''rid'', Num (int rid))] bo = (Inr (line, dn), bn) \<longrightarrow>
          lines_next h hn it0 w =
            (Inr \<lparr>it_value = (if dn then Some [] else line), it_done = dn\<rparr>,
             (if dn then it0 else it0\<lparr>it_rid := Some rid\<rparr>),
             w\<lparr>backend := bn,
               calls := calls w @
                 [(''plugin:fs|read_text_file_lines'',
                   [(''path'', Str (path_to_string path)), (''options'', options)]),
                  (''plugin:fs|read_text_file_lines_next'', [(''rid'', Num (int rid))])]\<rparr>))
       \<and> (hn [(''rid'', Num (int r))] (backend w) = (Inr (line, dn), bn) \<longrightarrow>
          lines_next h hn (it0\<lparr>it_rid := Some r\<rparr>) w =
            (Inr \<lparr>it_value = (if dn then Some [] else line), it_done = dn\<rparr>,
             (if dn then it0 else it0\<lparr>it_rid := Some r\<rparr>),
             w\<lparr>backend := bn,
               calls := calls w @
                 [(''plugin:fs|read_text_file_lines_next'', [(''rid'', Num (int r))])]\<rparr>))
       \<and> (hn [(''rid'', Num (int r))] (backend w) = (Inr (line, True), bn)
            \<and> h [(''path'', Str (path_to_string path)), (''options'', options)] bn
                 = (Inr rid', bo')
            \<and> hn [(''rid'', Num (int rid'))] bo' = (Inr (line', dn'), bn') \<longrightarrow>
          (case lines_next h hn (it0\<lparr>it_rid := Some r\<rparr>) w of
             (res, this', w') \<Rightarrow>
               res = Inr \<lparr>it_value = Some [], it_done = True\<rparr> \<and> this' = it0
               \<and> lines_next h hn this' w' =
                   (Inr \<lparr>it_value = (if dn' then Some [] else line'), it_done = dn'\<rparr>,
                    (if dn' then it0 else it0\<lparr>it_rid := Some rid'\<rparr>),
                    w\<lparr>backend := bn',
                      calls := calls w @
                        [(''plugin:fs|read_text_file_lines_next'', [(''rid'', Num (int r))]),
                         (''plugin:fs|read_text_file_lines'',
                          [(''path'', Str (path_to_string path)), (''options'', options)]),
                         (''plugin:fs|read_text_file_lines_next'',
                          [(''rid'', Num (int rid'))])]\<rparr>)))"
proof -
  from assms have it0: "it0 = \<lparr>it_path = path_to_string path, it_rid = None, it_options = options\<rparr>"
    and w0: "w0' = w0"
    by (auto simp: readTextFileLines_def split: if_splits)
  have a: "lines_next h hn it0 w =
            (Inr \<lparr>it_value = (if dn then Some [] else line), it_done = dn\<rparr>,
             (if dn then it0 else it0\<lparr>it_rid := Some rid\<rparr>),
             w\<lparr>backend := bn,
               calls := calls w @
                 [(''plugin:fs|read_text_file_lines'',
                   [(''path'', Str (path_to_string path)), (''options'', options)]),
                  (''plugin:fs|read_text_file_lines_next'', [(''rid'', Num (int rid))])]\<rparr>)"
    if "h [(''path'', Str (path_to_string path)), (''options'', options)] (backend w)
              = (Inr rid, bo)
            \<and> hn [(''rid'', Num (int rid))] bo = (Inr (line, dn), bn)"
    using that lines_next_fresh [of it0 h w rid bo hn line dn bn] by (simp add: it0)
  have b: "lines_next h hn (it0\<lparr>it_rid := Some r\<rparr>) w =
            (Inr \<lparr>it_value = (if dn then Some [] else line), it_done = dn\<rparr>,
             (if dn then it0 else it0\<lparr>it_rid := Some r\<rparr>),
             w\<lparr>backend := bn,
               calls := calls w @
                 [(''plugin:fs|read_text_file_lines_next'', [(''rid'', Num (int r))])]\<rparr>)"
    if "hn [(''rid'', Num (int r))] (backend w) = (Inr (line, dn), bn)"
    using that lines_next_opened [of "it0\<lparr>it_rid := Some r\<rparr>" r hn w line dn bn h]
    by (simp add: it0)
  have c: "(case lines_next h hn (it0\<lparr>it_rid := Some r\<rparr>) w of
             (res, this', w') \<Rightarrow>
               res = Inr \<lparr>it_value = Some [], it_done = True\<rparr> \<and> this' = it0
               \<and> lines_next h hn this' w' =
                   (Inr \<lparr>it_value = (if dn' then Some [] else line'), it_done = dn'\<rparr>,
                    (if dn' then it0 else it0\<lparr>it_rid := Some rid'\<rparr>),
                    w\<lparr>backend := bn',
                      calls := calls w @
                        [(''plugin:fs|read_text_file_lines_next'', [(''rid'', Num (int r))]),
                         (''plugin:fs|read_text_file_lines'',
                          [(''path'', Str (path_to_string path)), (''options'', options)]),
                         (''plugin:fs|read_text_file_lines_next'',
                          [(''rid'', Num (int rid'))])]\<rparr>))"
    if "hn [(''rid'', Num (int r))] (backend w) = (Inr (line, True), bn)
        \<and> h [(''path'', Str (path_to_string path)), (''options'', options)] bn
             = (Inr rid', bo')
        \<and> hn [(''rid'', Num (int rid'))] bo' = (Inr (line', dn'), bn')"
  proof -
    let ?w' = "w\<lparr>backend := bn,
                 calls := calls w @
                   [(''plugin:fs|read_text_file_lines_next'', [(''rid'', Num (int r))])]\<rparr>"
    from that have p: "hn [(''rid'', Num (int r))] (backend w) = (Inr (line, True), bn)"
      and q: "h [(''path'', Str (it_path it0)), (''options'', it_options it0)] (backend ?w')
                = (Inr rid', bo')"
      and q': "hn [(''rid'', Num (int rid'))] bo' = (Inr (line', dn'), bn')"
      by (simp_all add: it0)
    from lines_next_opened [of "it0\<lparr>it_rid := Some r\<rparr>" r hn w line True bn h] p
    have s: "lines_next h hn (it0\<lparr>it_rid := Some r\<rparr>) w =
               (Inr \<lparr>it_value = Some [], it_done = True\<rparr>, it0, ?w')"
      by (simp add: it0)
    have n: "it_rid it0 = None" by (simp add: it0)
    from lines_next_fresh [of it0 h ?w' rid' bo' hn line' dn' bn'] n q q'
    have "lines_next h hn it0 ?w' =
            (Inr \<lparr>it_value = (if dn' then Some [] else line'), it_done = dn'\<rparr>,
             (if dn' then it0 else it0\<lparr>it_rid := Some rid'\<rparr>),
             w\<lparr>backend := bn',
               calls := calls w @
                 [(''plugin:fs|read_text_file_lines_next'', [(''rid'', Num (int r))]),
                  (''plugin:fs|read_text_file_lines'',
                   [(''path'', Str (path_to_string path)), (''options'', options)]),
                  (''plugin:fs|read_text_file_lines_next'', [(''rid'', Num (int rid'))])]\<rparr>)"
      by (simp add: it0)
    with s show ?thesis by simp
  qed
  from w0 it0 a b c show ?thesis by blast
qed

theorem readTextFileLines_lazy_restartable_witness:
  "readTextFileLines (PathStr ''a.txt'') Undefined
      \<lparr>backend = ([''x'', ''y''], [] :: string list), calls = [], channels = ([] :: nat list)\<rparr>
     = (Inr \<lparr>it_path = ''a.txt'', it_rid = None, it_options = Undefined\<rparr> :: error js_error + LinesIter,
        \<lparr>backend = ([''x'', ''y''], []), calls = [], channels = []\<rparr>)
   \<and> lines_next (\<lambda>a (f, c). (Inr 7 :: error + nat, (f, f)))
       (\<lambda>a (f, c). (case c of [] \<Rightarrow> (Inr (None, True) :: error + string option \<times> bool, (f, []))
                         | l # ls \<Rightarrow> (Inr (Some l, False), (f, ls))))
       \<lparr>it_path = ''a.txt'', it_rid = None, it_options = Undefined\<rparr>
       \<lparr>backend = ([''x'', ''y''], []), calls = [], channels = ([] :: nat list)\<rparr>
     = (Inr \<lparr>it_value = Some ''x'', it_done = False\<rparr>,
        \<lparr>it_path = ''a.txt'', it_rid = Some 7, it_options = Undefined\<rparr>,
        \<lparr>backend = ([''x'', ''y''], [''y'']), calls = [(''plugin:fs|read_text_file_lines'', [(''path'', Str ''a.txt''), (''options'', Undefined)]),
            (''plugin:fs|read_text_file_lines_next'', [(''rid'', Num 7)])], channels = []\<rparr>)
   \<and> lines_next (\<lambda>a (f, c). (Inr 7 :: error + nat, (f, f)))
       (\<lambda>a (f, c). (case c of [] \<Rightarrow> (Inr (None, True) :: error + string option \<times> bool, (f, []))
                         | l # ls \<Rightarrow> (Inr (Some l, False), (f, ls))))
       \<lparr>it_path = ''a.txt'', it_rid = Some 7, it_options = Undefined\<rparr>
       \<lparr>backend = ([''x'', ''y''], [''y'']), calls = [(''plugin:fs|read_text_file_lines'', [(''path'', Str ''a.txt''), (''options'', Undefined)]), (''plugin:fs|read_text_file_lines_next'', [(''rid'', Num 7)])], channels = ([] :: nat list)\<rparr>
     = (Inr \<lparr>it_value = Some ''y'', it_done = False\<rparr>,
        \<lparr>it_path = ''a.txt'', it_rid = Some 7, it_options = Undefined\<rparr>,
        \<lparr>backend = ([''x'', ''y''], []), calls = [(''plugin:fs|read_text_file_lines'', [(''path'', Str ''a.txt''), (''options'', Undefined)]),
            (''plugin:fs|read_text_file_lines_next'', [(''rid'', Num 7)]),
            (''plugin:fs|read_text_file_lines_next'', [(''rid'', Num 7)])], channels = []\<rparr>)
   \<and> lines_next (\<lambda>a (f, c). (Inr 7 :: error + nat, (f, f)))
       (\<lambda>a (f, c). (case c of [] \<Rightarrow> (Inr (None, True) :: error + string option \<times> bool, (f, []))
                         | l # ls \<Rightarrow> (Inr (Some l, False), (f, ls))))
       \<lparr>it_path = ''a.txt'', it_rid = Some 7, it_options = Undefined\<rparr>
       \<lparr>backend = ([''x'', ''y''], []), calls = [(''plugin:fs|read_text_file_lines'', [(''path'', Str ''a.txt''), (''options'', Undefined)]), (''plugin:fs|read_text_file_lines_next'', [(''rid'', Num 7)]), (''plugin:fs|read_text_file_lines_next'', [(''rid'', Num 7)])], channels = ([] :: nat list)\<rparr>
     = (Inr \<lparr>it_value = Some [], it_done = True\<rparr>,
        \<lparr>it_path = ''a.txt'', it_rid = None, it_options = Undefined\<rparr>,
        \<lparr>backend = ([''x'', ''y''], []), calls = [(''plugin:fs|read_text_file_lines'', [(''path'', Str ''a.txt''), (''options'', Undefined)]),
            (''plugin:fs|read_text_file_lines_next'', [(''rid'', Num 7)]),
            (''plugin:fs|read_text_file_lines_next'', [(''rid'', Num 7)]),
            (''plugin:fs|read_text_file_lines_next'', [(''rid'', Num 7)])], channels = []\<rparr>)
   \<and> lines_next (\<lambda>a (f, c). (Inr 7 :: error + nat, (f, f)))
       (\<lambda>a (f, c). (case c of [] \<Rightarrow> (Inr (None, True) :: error + string option \<times> bool, (f, []))
                         | l # ls \<Rightarrow> (Inr (Some l, False), (f, ls))))
       \<lparr>it_path = ''a.txt'', it_rid = None, it_options = Undefined\<rparr>
       \<lparr>backend = ([''x'', ''y''], []), calls = [(''plugin:fs|read_text_file_lines'', [(''path'', Str ''a.txt''), (''options'', Undefined)]), (''plugin:fs|read_text_file_lines_next'', [(''rid'', Num 7)]), (''plugin:fs|read_text_file_lines_next'', [(''rid'', Num 7)]), (''plugin:fs|read_text_file_lines_next'', [(''rid'', Num 7)])], channels = ([] :: nat list)\<rparr>
     = (Inr \<lparr>it_value = Some ''x'', it_done = False\<rparr>,
        \<lparr>it_path = ''a.txt'', it_rid = Some 7, it_options = Undefined\<rparr>,
        \<lparr>backend = ([''x'', ''y''], [''y'']), calls = [(''plugin:fs|read_text_file_lines'', [(''path'', Str ''a.txt''), (''options'', Undefined)]),
            (''plugin:fs|read_text_file_lines_next'', [(''rid'', Num 7)]),
            (''plugin:fs|read_text_file_lines_next'', [(''rid'', Num 7)]),
            (''plugin:fs|read_text_file_lines_next'', [(''rid'', Num 7)]),
            (''plugin:fs|read_text_file_lines'', [(''path'', Str ''a.txt''), (''options'', Undefined)]),
            (''plugin:fs|read_text_file_lines_next'', [(''rid'', Num 7)])], channels = []\<rparr>)"
proof -
  let ?h = "(\<lambda>a (f, c). (Inr 7 :: error + nat, (f, f)))
              :: (string list \<times> string list, error, nat) handler"
  let ?hn = "(\<lambda>a (f, c).
               (case c of [] \<Rightarrow> (Inr (None, True) :: error + string option \<times> bool, (f, []))
                | l # ls \<Rightarrow> (Inr (Some l, False), (f, ls))))
              :: (string list \<times> string list, error, string option \<times> bool) handler"
  let ?it0 = "\<lparr>it_path = ''a.txt'', it_rid = None, it_options = Undefined\<rparr>"
  let ?w0 = "\<lparr>backend = ([''x'', ''y''], [] :: string list), calls = [],
             channels = ([] :: nat list)\<rparr>"
  have c: "readTextFileLines (PathStr ''a.txt'') Undefined ?w0
            = (Inr ?it0 :: error js_error + LinesIter, ?w0)"
    by (simp add: readTextFileLines_def)
  note t = readTextFileLines_lazy_restartable [OF c, where h = ?h and hn = ?hn and rid = 7
      and r = 7 and rid' = 7 and bo' = "([''x'', ''y''], [''x'', ''y''])"
      and line' = "Some ''x''" and dn' = False and bn' = "([''x'', ''y''], [''y''])"]
  have s1: "lines_next ?h
            ?hn
            \<lparr>it_path = ''a.txt'', it_rid = None, it_options = Undefined\<rparr>
            \<lparr>backend = ([''x'', ''y''], []), calls = [], channels = ([] :: nat list)\<rparr>
          = (Inr \<lparr>it_value = Some ''x'', it_done = False\<rparr>,
             \<lparr>it_path = ''a.txt'', it_rid = Some 7, it_options = Undefined\<rparr>,
             \<lparr>backend = ([''x'', ''y''], [''y'']), calls = [(''plugin:fs|read_text_file_lines'', [(''path'', Str ''a.txt''), (''options'', Undefined)]),
                 (''plugin:fs|read_text_file_lines_next'', [(''rid'', Num 7)])], channels = []\<rparr>)"
    using t [where w = "\<lparr>backend = ([''x'', ''y''], []), calls = [], channels = ([] :: nat list)\<rparr>" and bo = "([''x'', ''y''], [''x'', ''y''])"
        and line = "Some ''x''" and dn = False and bn = "([''x'', ''y''], [''y''])"]
    by simp
  have s2: "lines_next ?h
            ?hn
            \<lparr>it_path = ''a.txt'', it_rid = Some 7, it_options = Undefined\<rparr>
            \<lparr>backend = ([''x'', ''y''], [''y'']), calls = [(''plugin:fs|read_text_file_lines'', [(''path'', Str ''a.txt''), (''options'', Undefined)]), (''plugin:fs|read_text_file_lines_next'', [(''rid'', Num 7)])], channels = ([] :: nat list)\<rparr>
          = (Inr \<lparr>it_value = Some ''y'', it_done = False\<rparr>,
             \<lparr>it_path = ''a.txt'', it_rid = Some 7, it_options = Undefined\<rparr>,
             \<lparr>backend = ([''x'', ''y''], []), calls = [(''plugin:fs|read_text_file_lines'', [(''path'', Str ''a.txt''), (''options'', Undefined)]),
                 (''plugin:fs|read_text_file_lines_next'', [(''rid'', Num 7)]),
                 (''plugin:fs|read_text_file_lines_next'', [(''rid'', Num 7)])], channels = []\<rparr>)"
    using t [where w = "\<lparr>backend = ([''x'', ''y''], [''y'']), calls = [(''plugin:fs|read_text_file_lines'', [(''path'', Str ''a.txt''), (''options'', Undefined)]), (''plugin:fs|read_text_file_lines_next'', [(''rid'', Num 7)])], channels = ([] :: nat list)\<rparr>" and bo = "([''x'', ''y''], [''x'', ''y''])"
        and line = "Some ''y''" and dn = False and bn = "([''x'', ''y''], [])"]
    by simp
  note t3 = t [where w = "\<lparr>backend = ([''x'', ''y''], []), calls = [(''plugin:fs|read_text_file_lines'', [(''path'', Str ''a.txt''), (''options'', Undefined)]), (''plugin:fs|read_text_file_lines_next'', [(''rid'', Num 7)]), (''plugin:fs|read_text_file_lines_next'', [(''rid'', Num 7)])], channels = ([] :: nat list)\<rparr>" and bo = "([''x'', ''y''], [''x'', ''y''])"
        and line = None and dn = True and bn = "([''x'', ''y''], [])"]
  have s3: "lines_next ?h
            ?hn
            \<lparr>it_path = ''a.txt'', it_rid = Some 7, it_options = Undefined\<rparr>
            \<lparr>backend = ([''x'', ''y''], []), calls = [(''plugin:fs|read_text_file_lines'', [(''path'', Str ''a.txt''), (''options'', Undefined)]), (''plugin:fs|read_text_file_lines_next'', [(''rid'', Num 7)]), (''plugin:fs|read_text_file_lines_next'', [(''rid'', Num 7)])], channels = ([] :: nat list)\<rparr>
          = (Inr \<lparr>it_value = Some [], it_done = True\<rparr>,
             \<lparr>it_path = ''a.txt'', it_rid = None, it_options = Undefined\<rparr>,
             \<lparr>backend = ([''x'', ''y''], []), calls = [(''plugin:fs|read_text_file_lines'', [(''path'', Str ''a.txt''), (''options'', Undefined)]),
                 (''plugin:fs|read_text_file_lines_next'', [(''rid'', Num 7)]),
                 (''plugin:fs|read_text_file_lines_next'', [(''rid'', Num 7)]),
                 (''plugin:fs|read_text_file_lines_next'', [(''rid'', Num 7)])], channels = []\<rparr>)"
    using t3 by simp
  have s4: "lines_next ?h
            ?hn
            \<lparr>it_path = ''a.txt'', it_rid = None, it_options = Undefined\<rparr>
            \<lparr>backend = ([''x'', ''y''], []), calls = [(''plugin:fs|read_text_file_lines'', [(''path'', Str ''a.txt''), (''options'', Undefined)]), (''plugin:fs|read_text_file_lines_next'', [(''rid'', Num 7)]), (''plugin:fs|read_text_file_lines_next'', [(''rid'', Num 7)]), (''plugin:fs|read_text_file_lines_next'', [(''rid'', Num 7)])], channels = ([] :: nat list)\<rparr>
          = (Inr \<lparr>it_value = Some ''x'', it_done = False\<rparr>,
             \<lparr>it_path = ''a.txt'', it_rid = Some 7, it_options = Undefined\<rparr>,
             \<lparr>backend = ([''x'', ''y''], [''y'']), calls = [(''plugin:fs|read_text_file_lines'', [(''path'', Str ''a.txt''), (''options'', Undefined)]),
                 (''plugin:fs|read_text_file_lines_next'', [(''rid'', Num 7)]),
                 (''plugin:fs|read_text_file_lines_next'', [(''rid'', Num 7)]),
                 (''plugin:fs|read_text_file_lines_next'', [(''rid'', Num 7)]),
                 (''plugin:fs|read_text_file_lines'', [(''path'', Str ''a.txt''), (''options'', Undefined)]),
                 (''plugin:fs|read_text_file_lines_next'', [(''rid'', Num 7)])], channels = []\<rparr>)"
    using t3 s3 by simp
  from c s1 s2 s3 s4 show ?thesis by simp
qed

section \<open>Properties of the trusted side\<close>

subsection \<open>Escaping paths\<close>

lemmas path_syntax =
  path_part_def is_absolute_def is_sep_def drive_prefix_def is_letter_def is_scheme_char_def

lemma segments_nonempty: "segments s \<noteq> []"
  by (induction s) (auto split: list.splits)

lemma segments_prefix:
  "\<forall>c\<in>set pre. \<not> is_sep c \<Longrightarrow>
     segments (pre @ x) = (pre @ hd (segments x)) # tl (segments x)"
proof (induction pre)
  case Nil
  show ?case using segments_nonempty [of x] by simp
next
  case (Cons c pre)
  then show ?case by simp
qed

lemma scheme_split_Some:
  "scheme_split acc s = Some (sch, rest) \<Longrightarrow>
     \<exists>pre. s = pre @ CHR '':'' # rest \<and> (\<forall>c\<in>set pre. \<not> is_sep c)"
proof (induction acc s rule: scheme_split.induct)
  case (1 acc)
  then show ?case by simp
next
  case (2 acc c cs)
  show ?case
  proof (cases "c = CHR '':''")
    case True
    with 2(2) have "rest = cs" by (simp split: if_splits)
    with True show ?thesis by (intro exI [of _ "[]"]) simp
  next
    case False
    with 2(2) have ok: "(if acc = [] then is_letter c else is_scheme_char c)"
      and r: "scheme_split (c # acc) cs = Some (sch, rest)"
      by (simp_all split: if_splits)
    from ok have ns: "\<not> is_sep c"
      by (auto simp: is_sep_def is_letter_def is_scheme_char_def split: if_splits)
    from 2(1) [OF False ok r] obtain pre where "cs = pre @ CHR '':'' # rest"
      and "\<forall>c\<in>set pre. \<not> is_sep c" by blast
    with ns show ?thesis by (intro exI [of _ "c # pre"]) simp
  qed
qed

lemma dotdot_path_part:
  assumes "''..'' \<in> set (segments s)"
  shows "''..'' \<in> set (segments (path_part s))"
proof (cases "scheme_split [] s")
  case None
  with assms show ?thesis by (simp add: path_part_def)
next
  case (Some x)
  obtain sch rest where x: "x = (sch, rest)" by (cases x)
  from scheme_split_Some [of "[]" s sch rest] Some x obtain pre
    where s: "s = pre @ CHR '':'' # rest" and ns: "\<forall>c\<in>set pre. \<not> is_sep c" by auto
  have c: "\<forall>c\<in>set (pre @ '':''). \<not> is_sep c" using ns by (simp add: is_sep_def)
  have "segments s = ((pre @ '':'') @ hd (segments rest)) # tl (segments rest)"
    using segments_prefix [OF c, of rest] s by simp
  moreover have "(pre @ '':'') @ hd (segments rest) \<noteq> ''..''"
  proof
    assume "(pre @ '':'') @ hd (segments rest) = ''..''"
    then have "CHR '':'' \<in> set ''..''" by (metis in_set_conv_decomp append_assoc append_Cons)
    then show False by simp
  qed
  ultimately have "''..'' \<in> set (tl (segments rest))" using assms by auto
  then have "''..'' \<in> set (segments rest)" by (rule list.set_sel(2) [rotated]) (simp add: segments_nonempty)
  with Some x show ?thesis by (simp add: path_part_def)
qed

lemma escapes_sep: "is_sep c \<Longrightarrow> escapes (c # q)"
  by (auto simp: escapes_def path_part_def is_absolute_def is_sep_def is_letter_def)

lemma escapes_drive: "is_letter c \<Longrightarrow> escapes (c # CHR '':'' # q)"
  by (auto simp: escapes_def path_part_def is_absolute_def drive_prefix_def is_letter_def)

lemma escapes_file_url: "escapes (''file:/'' @ q)"
  by (simp add: escapes_def path_part_def is_absolute_def is_sep_def is_letter_def is_scheme_char_def)

lemma escapes_dotdot: "''..'' \<in> set (segments s) \<Longrightarrow> escapes s"
  by (simp add: escapes_def dotdot_path_part)

lemma segments_append: "segments (p @ CHR ''/'' # q) = segments p @ segments q"
  using segments_nonempty by (induction p) (auto simp: is_sep_def split: list.splits)

lemma escapes_dotdot_between: "escapes (q @ ''/../'' @ q')"
proof -
  have "segments (q @ CHR ''/'' # (''..'' @ CHR ''/'' # q')) = segments q @ segments ''..'' @ segments q'"
    by (simp only: segments_append)
  then have "''..'' \<in> set (segments (q @ ''/../'' @ q'))" by (simp add: is_sep_def)
  then show ?thesis by (rule escapes_dotdot)
qed

lemma validate_error: "validate s = Inl e \<Longrightarrow> path_rejection e"
  by (auto simp: validate_def path_rejection_def split: if_splits)

lemma validate_escapes: "escapes s \<Longrightarrow> \<exists>e. validate s = Inl e"
  by (auto simp: validate_def escapes_def)

lemma traverse_Inl: "traverse f xs = Inl e \<Longrightarrow> \<exists>x\<in>set xs. f x = Inl e"
  by (induction xs) (auto split: sum.splits)

lemma traverse_fails: "x \<in> set xs \<Longrightarrow> f x = Inl e \<Longrightarrow> \<exists>e'. traverse f xs = Inl e'"
  by (induction xs) (auto split: sum.splits)

lemma traverse_Inr: "traverse f xs = Inr ys \<Longrightarrow> list_all2 (\<lambda>x y. f x = Inr y) xs ys"
  by (induction xs arbitrary: ys) (auto split: sum.splits)

lemma resolve_escapes:
  assumes "escapes s"
  shows "\<exists>e. resolve env s base = Inl e \<and> path_rejection e"
proof -
  from validate_escapes [OF assms] obtain e where e: "validate s = Inl e" by blast
  with validate_error [OF e] show ?thesis by (simp add: resolve_def)
qed

lemma dispatch_escapes:
  assumes "escapes s" and "path_args keys a = Some lps" and "(s, b) \<in> set lps"
  shows "\<exists>e. dispatch env cls keys prim a os = (Inl e, os) \<and> path_rejection e"
proof -
  let ?v = "\<lambda>(s, b). case validate s of Inl e \<Rightarrow> Inl e | Inr p \<Rightarrow> Inr (p, b)"
  from validate_escapes [OF assms(1)] obtain e0 where "validate s = Inl e0" by blast
  then have "?v (s, b) = Inl e0" by simp
  from traverse_fails [where f = ?v, OF assms(3) this] obtain e where e: "traverse ?v lps = Inl e"
    by blast
  from traverse_Inl [OF e] obtain x :: "string \<times> int option" where "?v x = Inl e"
    by blast
  then have "validate (fst x) = Inl e" by (cases x) (simp split: sum.splits)
  from validate_error [OF this] e assms(2) show ?thesis by (simp add: dispatch_def)
qed

lemma single_path_args:
  "path_args [(''path'', ''baseDir'')] [(''path'', Str s), (''options'', options)]
     = Some [(s, base_of options ''baseDir'')]"
  by (simp add: arg_paths_def arg_base_def)

lemma open_file_escapes:
  assumes "escapes (path_to_string p)" and "\<not> not_file_url p"
  shows "\<exists>e. path_rejection e \<and>
           open_file (dispatch env cls [(''path'', ''baseDir'')] prim) p options w =
             (Inl (Rejected e),
              w\<lparr>calls := calls w @
                   [(''plugin:fs|open'', [(''path'', Str (path_to_string p)), (''options'', options)])]\<rparr>)"
proof -
  from dispatch_escapes [OF assms(1) single_path_args, where env = env and cls = cls
      and prim = prim and os = "backend w" and options1 = options]
  obtain e where "dispatch env cls [(''path'', ''baseDir'')] prim
                    [(''path'', Str (path_to_string p)), (''options'', options)] (backend w)
                  = (Inl e, backend w)" and "path_rejection e"
    by auto
  with assms(2) show ?thesis
    by (auto simp: open_file_def invoke_def returning_def)
qed

lemma escaping_rejected:
  assumes "escapes s"
  shows "(\<exists>e. resolve env s base = Inl e \<and> path_rejection e)
       \<and> (path_args keys a = Some lps \<and> (s, base) \<in> set lps \<longrightarrow>
            (\<exists>e. dispatch env cls keys prim a os = (Inl e, os) \<and> path_rejection e))
       \<and> (path_to_string p = s \<and> \<not> not_file_url p \<longrightarrow>
            (\<exists>e. path_rejection e \<and>
               open_file (dispatch env cls [(''path'', ''baseDir'')] prim_open) p options w =
                 (Inl (Rejected e),
                  w\<lparr>calls := calls w @
                       [(''plugin:fs|open'', [(''path'', Str s), (''options'', options)])]\<rparr>)))"
proof (intro conjI impI)
  show "\<exists>e. resolve env s base = Inl e \<and> path_rejection e"
    by (rule resolve_escapes [OF assms])
next
  assume h: "path_args keys a = Some lps \<and> (s, base) \<in> set lps"
  then have a1: "path_args keys a = Some lps" and a2: "(s, base) \<in> set lps" by simp_all
  show "\<exists>e. dispatch env cls keys prim a os = (Inl e, os) \<and> path_rejection e"
    by (rule dispatch_escapes [OF assms a1 a2])
next
  assume "path_to_string p = s \<and> \<not> not_file_url p"
  then show "\<exists>e. path_rejection e \<and>
               open_file (dispatch env cls [(''path'', ''baseDir'')] prim_open) p options w =
                 (Inl (Rejected e),
                  w\<lparr>calls := calls w @
                       [(''plugin:fs|open'', [(''path'', Str s), (''options'', options)])]\<rparr>)"
    using open_file_escapes [of p env cls prim_open options w] assms by auto
qed

text \<open>
  C1. Let \<open>s\<close> escape: its path is absolute or has a \<^verbatim>\<open>..\<close> segment. Then \<open>resolve\<close>
  fails on \<open>s\<close> with \<open>PathTraversal\<close> or \<open>InvalidPath\<close>; every command of the dispatcher,
  whatever its operation class, path arguments and OS primitive, fails with such an error
  when \<open>s\<close> is among its paths, with the state the primitive works on untouched; and
  \<^verbatim>\<open>open\<close> of the front end, which sends \<open>s\<close> as it is, is rejected with that error.
  These inputs escape: one that begins with a separator, one that begins with a letter and
  a colon, a file URL \<^verbatim>\<open>file:/\<close>\<open>q\<close> (so \<^verbatim>\<open>file://host/\<close>\<open>q\<close> and \<^verbatim>\<open>file:///\<close>\<open>q\<close> too),
  one with a \<^verbatim>\<open>..\<close> segment, as in \<open>q\<close>\<^verbatim>\<open>/../\<close>\<open>q'\<close>.
\<close>

theorem escaping_path_rejected_before_io:
  "(escapes s \<longrightarrow>
      (\<exists>e. resolve env s base = Inl e \<and> path_rejection e)
    \<and> (path_args keys a = Some lps \<and> (s, base) \<in> set lps \<longrightarrow>
         (\<exists>e. dispatch env cls keys prim a os = (Inl e, os) \<and> path_rejection e))
    \<and> (path_to_string p = s \<and> \<not> not_file_url p \<longrightarrow>
         (\<exists>e. path_rejection e \<and>
            open_file (dispatch env cls [(''path'', ''baseDir'')] prim_open) p options w =
              (Inl (Rejected e),
               w\<lparr>calls := calls w @
                    [(''plugin:fs|open'', [(''path'', Str s), (''options'', options)])]\<rparr>))))
   \<and> (is_sep c \<longrightarrow> escapes (c # q))
   \<and> (is_letter c \<longrightarrow> escapes (c # CHR '':'' # q))
   \<and> escapes (''file:/'' @ q)
   \<and> (''..'' \<in> set (segments s) \<longrightarrow> escapes s)
   \<and> escapes (q @ ''/../'' @ q')"
  (is "?rejected \<and> ?sep \<and> ?drive \<and> ?url \<and> ?dotdot \<and> ?between")
proof -
  have a: ?rejected by (rule impI, rule escaping_rejected)
  have b: ?sep by (rule impI, rule escapes_sep)
  have c: ?drive by (rule impI, rule escapes_drive)
  have d: ?url by (rule escapes_file_url)
  have e: ?dotdot by (rule impI, rule escapes_dotdot)
  have f: ?between by (rule escapes_dotdot_between)
  from a b c d e f show ?thesis by (intro conjI)
qed

theorem escaping_path_rejected_before_io_witness:
  "escapes ''../etc/passwd''
   \<and> resolve app_env ''../etc/passwd'' (Some 14) = Inl PathTraversal
   \<and> resolve app_env ''/etc/passwd'' None = Inl (InvalidPath Absolute)
   \<and> dispatch app_env ''open'' [(''path'', ''baseDir'')] (\<lambda>rps a os. (Inr 0 :: error + nat, rps # os))
        [(''path'', Str ''../etc/passwd''), (''options'', Obj [(''baseDir'', Num 14)])] []
      = (Inl PathTraversal, [])
   \<and> open_file (dispatch app_env ''open'' [(''path'', ''baseDir'')] (\<lambda>rps a os. (Inr 0, rps # os)))
        (PathStr ''../etc/passwd'') (Obj [(''baseDir'', Num 14)])
        \<lparr>backend = [], calls = [], channels = ([] :: nat list)\<rparr>
      = (Inl (Rejected PathTraversal),
         \<lparr>backend = [],
          calls = [(''plugin:fs|open'',
                    [(''path'', Str ''../etc/passwd''), (''options'', Obj [(''baseDir'', Num 14)])])],
          channels = []\<rparr>)
   \<and> escapes ''/etc/passwd''
   \<and> escapes ''a/../../b''
   \<and> escapes ''C:/Windows/win.ini''
   \<and> resolve app_env ''C:/Windows/win.ini'' (Some 14) = Inl (InvalidPath Absolute)
   \<and> escapes (''C:'' @ [CHR 0x5C] @ ''Windows'')
   \<and> escapes ''D:notes.txt''
   \<and> escapes ''file://server/share/x''
   \<and> resolve app_env ''file://server/share/x'' (Some 14) = Inl (InvalidPath Absolute)
   \<and> escapes ''file:///etc/passwd''
   \<and> resolve app_env ''file:///etc/passwd'' None = Inl (InvalidPath Absolute)
   \<and> resolve app_env ''file:/etc/passwd'' None = Inl (InvalidPath Absolute)
   \<and> resolve app_env ''a/../../b'' (Some 14) = Inl PathTraversal
   \<and> open_file (dispatch app_env ''open'' [(''path'', ''baseDir'')] (\<lambda>rps a os. (Inr 0, rps # os)))
        (PathUrl \<lparr>protocol = ''file:'', href = ''file://server/share/x''\<rparr>)
        (Obj [(''baseDir'', Num 14)])
        \<lparr>backend = [], calls = [], channels = ([] :: nat list)\<rparr>
      = (Inl (Rejected (InvalidPath Absolute)),
         \<lparr>backend = [],
          calls = [(''plugin:fs|open'',
                    [(''path'', Str ''file://server/share/x''),
                     (''options'', Obj [(''baseDir'', Num 14)])])],
          channels = []\<rparr>)"
proof -
  let ?prim = "\<lambda>(rps :: string list list) (a :: args) (os :: string list list list).
                 (Inr 0 :: error + nat, rps # os)"
  let ?w = "\<lparr>backend = [] :: string list list list, calls = [], channels = ([] :: nat list)\<rparr>"
  let ?o = "Obj [(''baseDir'', Num 14)]"
  let ?a = "[(''path'', Str ''../etc/passwd''), (''options'', ?o)]"
  have esc: "escapes ''../etc/passwd''"
    using escaping_path_rejected_before_io
      [where s = "''../etc/passwd''",
       THEN conjunct2, THEN conjunct2, THEN conjunct2, THEN conjunct2, THEN conjunct1, THEN mp]
    by (simp add: is_sep_def)
  have esc_sep: "escapes ''/etc/passwd''"
    using escaping_path_rejected_before_io
      [where c = "CHR ''/''" and q = "''etc/passwd''",
       THEN conjunct2, THEN conjunct1, THEN mp]
    by (simp add: is_sep_def)
  have esc_drive: "escapes ''C:/Windows/win.ini''"
    using escaping_path_rejected_before_io
      [where c = "CHR ''C''" and q = "''/Windows/win.ini''",
       THEN conjunct2, THEN conjunct2, THEN conjunct1, THEN mp]
    by (simp add: is_letter_def)
  have esc_url: "escapes ''file://server/share/x''"
    using escaping_path_rejected_before_io
      [where q = "''/server/share/x''",
       THEN conjunct2, THEN conjunct2, THEN conjunct2, THEN conjunct1]
    by simp
  have esc_between: "escapes ''a/../../b''"
    using escaping_path_rejected_before_io
      [where q = "''a''" and q' = "''../b''",
       THEN conjunct2, THEN conjunct2, THEN conjunct2, THEN conjunct2, THEN conjunct2]
    by simp
  have v: "validate ''../etc/passwd'' = Inl PathTraversal"
    by (simp add: validate_def path_syntax)
  have r2: "resolve app_env ''/etc/passwd'' None = Inl (InvalidPath Absolute)"
    by (simp add: resolve_def validate_def path_syntax)
  have pa: "path_args [(''path'', ''baseDir'')] ?a = Some [(''../etc/passwd'', Some 14)]
            \<and> (''../etc/passwd'', Some 14) \<in> set [(''../etc/passwd'', Some (14 :: int))]"
    by (simp add: arg_paths_def arg_base_def base_of_def)
  have pp: "path_to_string (PathStr ''../etc/passwd'') = ''../etc/passwd''
            \<and> \<not> not_file_url (PathStr ''../etc/passwd'')"
    by simp
  note t = mp [OF conjunct1 [OF escaping_path_rejected_before_io
      [where s = "''../etc/passwd''" and env = app_env and base = "Some 14"
      and p = "PathStr ''../etc/passwd''" and cls = "''open''" and prim_open = ?prim
      and options = ?o and w = ?w and keys = "[(''path'', ''baseDir'')]" and a = ?a
      and lps = "[(''../etc/passwd'', Some 14)]" and prim = ?prim and os = "[]"]] esc]
  from t pa obtain e1 where e1: "dispatch app_env ''open'' [(''path'', ''baseDir'')] ?prim ?a []
      = (Inl e1, [])"
    by blast
  from t pp obtain e where e: "open_file (dispatch app_env ''open'' [(''path'', ''baseDir'')] ?prim)
        (PathStr ''../etc/passwd'') ?o ?w
      = (Inl (Rejected e),
         ?w\<lparr>calls := calls ?w @
              [(''plugin:fs|open'', [(''path'', Str ''../etc/passwd''), (''options'', ?o)])]\<rparr>)"
    by blast
  have d: "dispatch app_env ''open'' [(''path'', ''baseDir'')] ?prim ?a []
      = (Inl PathTraversal, [])"
    by (simp add: dispatch_def arg_paths_def v)
  have "open_file (dispatch app_env ''open'' [(''path'', ''baseDir'')] ?prim)
        (PathStr ''../etc/passwd'') ?o ?w
      = (Inl (Rejected PathTraversal),
         ?w\<lparr>calls := calls ?w @
              [(''plugin:fs|open'', [(''path'', Str ''../etc/passwd''), (''options'', ?o)])]\<rparr>)"
    by (simp add: open_file_def invoke_def returning_def d)
  with e have eq: "e = PathTraversal" by simp
  have n1: "escapes (''C:'' @ [CHR 0x5C] @ ''Windows'')"
    "escapes ''D:notes.txt''" "escapes ''file:///etc/passwd''"
    by (simp_all add: escapes_def path_syntax)
  have n2: "resolve app_env ''C:/Windows/win.ini'' (Some 14) = Inl (InvalidPath Absolute)"
    "resolve app_env ''file://server/share/x'' (Some 14) = Inl (InvalidPath Absolute)"
    "resolve app_env ''file:///etc/passwd'' None = Inl (InvalidPath Absolute)"
    "resolve app_env ''file:/etc/passwd'' None = Inl (InvalidPath Absolute)"
    "resolve app_env ''a/../../b'' (Some 14) = Inl PathTraversal"
    by (simp_all add: resolve_def validate_def path_syntax)
  let ?u = "PathUrl \<lparr>protocol = ''file:'', href = ''file://server/share/x''\<rparr>"
  have pu: "path_to_string ?u = ''file://server/share/x'' \<and> \<not> not_file_url ?u" by simp
  note tu = mp [OF conjunct1 [OF escaping_path_rejected_before_io
      [where s = "''file://server/share/x''" and env = app_env and base = "Some 14"
      and p = ?u and cls = "''open''" and prim_open = ?prim and options = ?o and w = ?w
      and keys = "[(''path'', ''baseDir'')]" and a = ?a
      and lps = "[(''../etc/passwd'', Some 14)]" and prim = ?prim and os = "[]"]] esc_url]
  from tu pu obtain eu where eu: "path_rejection eu"
      "open_file (dispatch app_env ''open'' [(''path'', ''baseDir'')] ?prim) ?u ?o ?w
      = (Inl (Rejected eu),
         ?w\<lparr>calls := calls ?w @
              [(''plugin:fs|open'', [(''path'', Str ''file://server/share/x''), (''options'', ?o)])]\<rparr>)"
    by blast
  have vu: "validate ''file://server/share/x'' = Inl (InvalidPath Absolute)"
    by (simp add: validate_def path_syntax)
  have "open_file (dispatch app_env ''open'' [(''path'', ''baseDir'')] ?prim) ?u ?o ?w
      = (Inl (Rejected (InvalidPath Absolute)),
         ?w\<lparr>calls := calls ?w @
              [(''plugin:fs|open'', [(''path'', Str ''file://server/share/x''), (''options'', ?o)])]\<rparr>)"
    by (simp add: open_file_def invoke_def returning_def dispatch_def arg_paths_def vu)
  with eu have equ: "eu = InvalidPath Absolute" by simp
  from e eq e1 d esc esc_sep esc_drive esc_url esc_between v r2 n1 n2 eu(2) equ
  show ?thesis by (simp add: resolve_def)
qed

subsection \<open>Operations on two paths\<close>

lemma traverse_Inr_mem:
  "traverse f xs = Inr ys \<Longrightarrow> x \<in> set xs \<Longrightarrow> \<exists>y\<in>set ys. f x = Inr y"
  by (induction xs arbitrary: ys) (auto split: sum.splits)

lemma copy_path_args:
  "path_args [(''fromPath'', ''fromPathBaseDir''), (''toPath'', ''toPathBaseDir'')]
     [(''fromPath'', Str s1), (''toPath'', Str s2), (''options'', options)]
     = Some [(s1, base_of options ''fromPathBaseDir''), (s2, base_of options ''toPathBaseDir'')]"
  by (simp add: arg_paths_def arg_base_def)

lemma rename_path_args:
  "path_args [(''oldPath'', ''oldPathBaseDir''), (''newPath'', ''newPathBaseDir'')]
     [(''oldPath'', Str s1), (''newPath'', Str s2), (''options'', options)]
     = Some [(s1, base_of options ''oldPathBaseDir''), (s2, base_of options ''newPathBaseDir'')]"
  by (simp add: arg_paths_def arg_base_def)

lemma traverse_Inr_mem2:
  "traverse f xs = Inr ys \<Longrightarrow> y \<in> set ys \<Longrightarrow> \<exists>x\<in>set xs. f x = Inr y"
  by (induction xs arbitrary: ys) (auto split: sum.splits)

lemma traverse_all_Inr:
  "\<forall>x\<in>set xs. \<exists>y. f x = Inr y \<Longrightarrow> \<exists>ys. traverse f xs = Inr ys"
  by (induction xs) (auto split: sum.splits)

lemma stages_member:
  assumes vps: "traverse (\<lambda>(s, b :: int option). case validate s of Inl e \<Rightarrow> Inl e | Inr p \<Rightarrow> Inr (p, b)) lps
                  = Inr vps"
    and rps: "traverse (\<lambda>(p, b). locate env p b) vps = Inr rps"
    and mem: "(s, b) \<in> set lps"
  shows "\<exists>rp\<in>set rps. resolve env s b = Inr rp"
proof -
  from traverse_Inr_mem [OF vps mem] obtain vp where vp: "vp \<in> set vps"
    "(case validate s of Inl e \<Rightarrow> Inl e | Inr p \<Rightarrow> Inr (p, b)) = Inr vp"
    by auto
  then obtain p where p: "validate s = Inr p" "vp = (p, b)"
    by (auto split: sum.splits)
  from traverse_Inr_mem [OF rps vp(1)] p obtain rp where "rp \<in> set rps" "locate env p b = Inr rp"
    by auto
  with p show ?thesis by (auto simp: resolve_def)
qed

lemma stages_succeed:
  assumes "list_all (\<lambda>(s, b). \<exists>rp. resolve env s b = Inr rp) lps"
  shows "\<exists>vps rps.
           traverse (\<lambda>(s, b :: int option). case validate s of Inl e \<Rightarrow> Inl e | Inr p \<Rightarrow> Inr (p, b)) lps
             = Inr vps
         \<and> traverse (\<lambda>(p, b). locate env p b) vps = Inr rps"
proof -
  let ?v = "\<lambda>(s, b :: int option). case validate s of Inl e \<Rightarrow> Inl e | Inr p \<Rightarrow> Inr (p, b)"
  have "\<forall>x\<in>set lps. \<exists>y. ?v x = Inr y"
    using assms by (auto simp: list_all_iff resolve_def split: sum.splits)
  from traverse_all_Inr [OF this] obtain vps where vps: "traverse ?v lps = Inr vps" by blast
  have "\<forall>vp\<in>set vps. \<exists>y. (\<lambda>(p, b). locate env p b) vp = Inr y"
  proof
    fix vp assume "vp \<in> set vps"
    from traverse_Inr_mem2 [OF vps this] obtain x where x: "x \<in> set lps" "?v x = Inr vp" by blast
    with assms show "\<exists>y. (\<lambda>(p, b). locate env p b) vp = Inr y"
      by (cases x; cases vp) (auto simp: list_all_iff resolve_def split: sum.splits)
  qed
  from traverse_all_Inr [OF this] vps show ?thesis by blast
qed

lemma dispatch_not_permitted:
  assumes "path_args keys a = Some lps" and "(s, b) \<in> set lps" and "\<not> permitted env cls s b"
  shows "\<exists>e. dispatch env cls keys prim a os = (Inl e, os)"
proof -
  let ?v = "\<lambda>(s, b :: int option). case validate s of Inl e \<Rightarrow> Inl e | Inr p \<Rightarrow> Inr (p, b)"
  show ?thesis
  proof (cases "traverse ?v lps")
    case (Inl e)
    with assms(1) show ?thesis by (simp add: dispatch_def)
  next
    case vps: (Inr vps)
    show ?thesis
    proof (cases "traverse (\<lambda>(p, b). locate env p b) vps")
      case (Inl e)
      with assms(1) vps show ?thesis by (simp add: dispatch_def)
    next
      case rps: (Inr rps)
      from stages_member [OF vps rps assms(2)] obtain rp where rp: "rp \<in> set rps"
        "resolve env s b = Inr rp" by blast
      with assms(3) have "\<not> authorize env rp cls" by (simp add: permitted_def)
      with rp(1) have "list_ex (\<lambda>rp. \<not> authorize env rp cls) rps"
        by (auto simp: list_ex_iff)
      with assms(1) vps rps show ?thesis by (simp add: dispatch_def)
    qed
  qed
qed

lemma dispatch_scope_violation:
  assumes "path_args keys a = Some lps"
    and "list_all (\<lambda>(s, b). \<exists>rp. resolve env s b = Inr rp) lps"
    and "(s, b) \<in> set lps" and "resolve env s b = Inr rp" and "\<not> authorize env rp cls"
  shows "dispatch env cls keys prim a os = (Inl ScopeViolation, os)"
proof -
  from stages_succeed [OF assms(2)] obtain vps rps where
    vps: "traverse (\<lambda>(s, b :: int option). case validate s of Inl e \<Rightarrow> Inl e | Inr p \<Rightarrow> Inr (p, b)) lps
            = Inr vps"
    and rps: "traverse (\<lambda>(p, b). locate env p b) vps = Inr rps"
    by blast
  from stages_member [OF vps rps assms(3)] assms(4) have "rp \<in> set rps" by auto
  with assms(5) have "list_ex (\<lambda>rp. \<not> authorize env rp cls) rps"
    by (auto simp: list_ex_iff)
  with assms(1) vps rps show ?thesis by (simp add: dispatch_def)
qed

lemma copyFile_rejected:
  assumes "not_file_url fromPath \<or> not_file_url toPath
     \<or> \<not> permitted env ''copy_file'' (path_to_string fromPath) (base_of options ''fromPathBaseDir'')
     \<or> \<not> permitted env ''copy_file'' (path_to_string toPath) (base_of options ''toPathBaseDir'')"
  shows "(\<exists>e. fst (copyFile (cmd_copy_file env) fromPath toPath options w) = Inl e)
       \<and> backend (snd (copyFile (cmd_copy_file env) fromPath toPath options w)) = backend w"
proof (cases "not_file_url fromPath \<or> not_file_url toPath")
  case True
  then show ?thesis by (simp add: copyFile_def)
next
  case False
  let ?a = "[(''fromPath'', Str (path_to_string fromPath)), (''toPath'', Str (path_to_string toPath)),
             (''options'', options)]"
  from False assms obtain s b where
    "(s, b) \<in> set [(path_to_string fromPath, base_of options ''fromPathBaseDir''),
                   (path_to_string toPath, base_of options ''toPathBaseDir'')]"
    and "\<not> permitted env ''copy_file'' s b"
    by auto
  from dispatch_not_permitted [OF copy_path_args this, of os_copy "backend w"]
  obtain e where "cmd_copy_file env ?a (backend w) = (Inl e, backend w)"
    by (auto simp: cmd_copy_file_def)
  with False show ?thesis
    by (simp add: copyFile_def invoke_def returning_def)
qed

lemma rename_rejected:
  assumes "not_file_url oldPath \<or> not_file_url newPath
     \<or> \<not> permitted env ''rename'' (path_to_string oldPath) (base_of options ''oldPathBaseDir'')
     \<or> \<not> permitted env ''rename'' (path_to_string newPath) (base_of options ''newPathBaseDir'')"
  shows "(\<exists>e. fst (rename (cmd_rename env) oldPath newPath options w) = Inl e)
       \<and> backend (snd (rename (cmd_rename env) oldPath newPath options w)) = backend w"
proof (cases "not_file_url oldPath \<or> not_file_url newPath")
  case True
  then show ?thesis by (simp add: rename_def)
next
  case False
  let ?a = "[(''oldPath'', Str (path_to_string oldPath)), (''newPath'', Str (path_to_string newPath)),
             (''options'', options)]"
  from False assms obtain s b where
    "(s, b) \<in> set [(path_to_string oldPath, base_of options ''oldPathBaseDir''),
                   (path_to_string newPath, base_of options ''newPathBaseDir'')]"
    and "\<not> permitted env ''rename'' s b"
    by auto
  from dispatch_not_permitted [OF rename_path_args this, of os_rename "backend w"]
  obtain e where "cmd_rename env ?a (backend w) = (Inl e, backend w)"
    by (auto simp: cmd_rename_def)
  with False show ?thesis
    by (simp add: rename_def invoke_def returning_def)
qed

lemma copyFile_scope_violation:
  assumes "\<not> not_file_url fromPath" and "\<not> not_file_url toPath"
    and "resolve env (path_to_string fromPath) (base_of options ''fromPathBaseDir'') = Inr rs"
    and "resolve env (path_to_string toPath) (base_of options ''toPathBaseDir'') = Inr rd"
    and "\<not> authorize env rd ''copy_file''"
  shows "copyFile (cmd_copy_file env) fromPath toPath options w =
           (Inl (Rejected ScopeViolation),
            w\<lparr>calls := calls w @
                 [(''plugin:fs|copy_file'',
                   [(''fromPath'', Str (path_to_string fromPath)),
                    (''toPath'', Str (path_to_string toPath)), (''options'', options)])]\<rparr>)"
proof -
  let ?lps = "[(path_to_string fromPath, base_of options ''fromPathBaseDir''),
               (path_to_string toPath, base_of options ''toPathBaseDir'')]"
  have all: "list_all (\<lambda>(s, b). \<exists>rp. resolve env s b = Inr rp) ?lps"
    using assms(3,4) by simp
  have mem: "(path_to_string toPath, base_of options ''toPathBaseDir'') \<in> set ?lps" by simp
  from dispatch_scope_violation [OF copy_path_args all mem assms(4,5), of os_copy "backend w"]
  show ?thesis using assms(1,2)
    by (simp add: copyFile_def invoke_def returning_def cmd_copy_file_def)
qed


lemma stages_resolve:
  "traverse (\<lambda>(s, b). resolve env s b) lps = Inr rps \<Longrightarrow>
     \<exists>vps. traverse (\<lambda>(s, b :: int option). case validate s of Inl e \<Rightarrow> Inl e | Inr p \<Rightarrow> Inr (p, b)) lps
             = Inr vps
         \<and> traverse (\<lambda>(p, b). locate env p b) vps = Inr rps"
  by (induction lps arbitrary: rps) (auto simp: resolve_def split: sum.splits)

lemma dispatch_permitted:
  assumes "path_args keys a = Some lps"
    and "traverse (\<lambda>(s, b). resolve env s b) lps = Inr rps"
    and "list_all (\<lambda>rp. authorize env rp cls) rps"
  shows "dispatch env cls keys prim a os = prim rps a os"
proof -
  from stages_resolve [OF assms(2)] obtain vps where
    "traverse (\<lambda>(s, b :: int option). case validate s of Inl e \<Rightarrow> Inl e | Inr p \<Rightarrow> Inr (p, b)) lps
       = Inr vps"
    "traverse (\<lambda>(p, b). locate env p b) vps = Inr rps"
    by blast
  moreover from assms(3) have "\<not> list_ex (\<lambda>rp. \<not> authorize env rp cls) rps"
    by (simp add: list_all_iff list_ex_iff)
  ultimately show ?thesis using assms(1) by (simp add: dispatch_def)
qed

lemma copyFile_permitted:
  assumes "\<not> not_file_url fromPath" and "\<not> not_file_url toPath"
    and "resolve env (path_to_string fromPath) (base_of options ''fromPathBaseDir'') = Inr rs"
    and "resolve env (path_to_string toPath) (base_of options ''toPathBaseDir'') = Inr rd"
    and "authorize env rs ''copy_file''" and "authorize env rd ''copy_file''"
    and "map_of (backend w) rs = Some d"
  shows "copyFile (cmd_copy_file env) fromPath toPath options w =
           (Inr (),
            w\<lparr>backend := AList.update rd d (backend w),
              calls := calls w @
                 [(''plugin:fs|copy_file'',
                   [(''fromPath'', Str (path_to_string fromPath)),
                    (''toPath'', Str (path_to_string toPath)), (''options'', options)])]\<rparr>)"
proof -
  let ?lps = "[(path_to_string fromPath, base_of options ''fromPathBaseDir''),
               (path_to_string toPath, base_of options ''toPathBaseDir'')]"
  have tr: "traverse (\<lambda>(s, b). resolve env s b) ?lps = Inr [rs, rd]"
    using assms(3,4) by simp
  have au: "list_all (\<lambda>rp. authorize env rp ''copy_file'') [rs, rd]"
    using assms(5,6) by simp
  from dispatch_permitted [OF copy_path_args tr au, of os_copy "backend w"] assms(1,2,7)
  show ?thesis
    by (simp add: copyFile_def invoke_def returning_def cmd_copy_file_def os_copy_def)
qed

text \<open>
  C3. \<^verbatim>\<open>copyFile\<close> and \<^verbatim>\<open>rename\<close> against the commands of the dispatcher: when one of
  the two paths is a URL of another scheme, does not resolve or is not authorized, the call
  fails and the filesystem is the one before the call. When both paths resolve and the
  destination of a copy is not authorized, the failure is \<open>ScopeViolation\<close>.
\<close>

theorem copy_rename_validate_both_first:
  "(not_file_url fromPath \<or> not_file_url toPath
     \<or> \<not> permitted env ''copy_file'' (path_to_string fromPath) (base_of options ''fromPathBaseDir'')
     \<or> \<not> permitted env ''copy_file'' (path_to_string toPath) (base_of options ''toPathBaseDir'')
    \<longrightarrow> (\<exists>e. fst (copyFile (cmd_copy_file env) fromPath toPath options w) = Inl e)
       \<and> backend (snd (copyFile (cmd_copy_file env) fromPath toPath options w)) = backend w)
   \<and> (not_file_url fromPath \<or> not_file_url toPath
     \<or> \<not> permitted env ''rename'' (path_to_string fromPath) (base_of options ''oldPathBaseDir'')
     \<or> \<not> permitted env ''rename'' (path_to_string toPath) (base_of options ''newPathBaseDir'')
    \<longrightarrow> (\<exists>e. fst (rename (cmd_rename env) fromPath toPath options w) = Inl e)
       \<and> backend (snd (rename (cmd_rename env) fromPath toPath options w)) = backend w)
   \<and> (\<not> not_file_url fromPath \<and> \<not> not_file_url toPath
     \<and> resolve env (path_to_string fromPath) (base_of options ''fromPathBaseDir'') = Inr rs
     \<and> resolve env (path_to_string toPath) (base_of options ''toPathBaseDir'') = Inr rd
     \<and> \<not> authorize env rd ''copy_file''
    \<longrightarrow> copyFile (cmd_copy_file env) fromPath toPath options w =
           (Inl (Rejected ScopeViolation),
            w\<lparr>calls := calls w @
                 [(''plugin:fs|copy_file'',
                   [(''fromPath'', Str (path_to_string fromPath)),
                    (''toPath'', Str (path_to_string toPath)), (''options'', options)])]\<rparr>))"
proof (intro conjI impI)
  assume h: "not_file_url fromPath \<or> not_file_url toPath
     \<or> \<not> permitted env ''copy_file'' (path_to_string fromPath) (base_of options ''fromPathBaseDir'')
     \<or> \<not> permitted env ''copy_file'' (path_to_string toPath) (base_of options ''toPathBaseDir'')"
  from copyFile_rejected [OF h]
  show "\<exists>e. fst (copyFile (cmd_copy_file env) fromPath toPath options w) = Inl e"
    and "backend (snd (copyFile (cmd_copy_file env) fromPath toPath options w)) = backend w"
    by blast+
next
  assume h: "not_file_url fromPath \<or> not_file_url toPath
     \<or> \<not> permitted env ''rename'' (path_to_string fromPath) (base_of options ''oldPathBaseDir'')
     \<or> \<not> permitted env ''rename'' (path_to_string toPath) (base_of options ''newPathBaseDir'')"
  from rename_rejected [OF h]
  show "\<exists>e. fst (rename (cmd_rename env) fromPath toPath options w) = Inl e"
    and "backend (snd (rename (cmd_rename env) fromPath toPath options w)) = backend w"
    by blast+
next
  assume "\<not> not_file_url fromPath \<and> \<not> not_file_url toPath
     \<and> resolve env (path_to_string fromPath) (base_of options ''fromPathBaseDir'') = Inr rs
     \<and> resolve env (path_to_string toPath) (base_of options ''toPathBaseDir'') = Inr rd
     \<and> \<not> authorize env rd ''copy_file''"
  then show "copyFile (cmd_copy_file env) fromPath toPath options w =
           (Inl (Rejected ScopeViolation),
            w\<lparr>calls := calls w @
                 [(''plugin:fs|copy_file'',
                   [(''fromPath'', Str (path_to_string fromPath)),
                    (''toPath'', Str (path_to_string toPath)), (''options'', options)])]\<rparr>)"
    using copyFile_scope_violation by blast
qed

theorem copy_rename_validate_both_first_witness:
  "copyFile (cmd_copy_file app_env) (PathStr ''a.txt'') (PathStr ''secret/b.txt'')
      (Obj [(''fromPathBaseDir'', Num 14), (''toPathBaseDir'', Num 14)])
      \<lparr>backend = [([''home'', ''u'', ''app'', ''a.txt''], [1, 2])], calls = [],
       channels = ([] :: nat list)\<rparr>
     = (Inl (Rejected ScopeViolation),
        \<lparr>backend = [([''home'', ''u'', ''app'', ''a.txt''], [1, 2])],
         calls = [(''plugin:fs|copy_file'',
                   [(''fromPath'', Str ''a.txt''), (''toPath'', Str ''secret/b.txt''),
                    (''options'', Obj [(''fromPathBaseDir'', Num 14), (''toPathBaseDir'', Num 14)])])],
         channels = []\<rparr>)
   \<and> backend (snd (rename (cmd_rename app_env) (PathStr ''a.txt'') (PathStr ''../b.txt'')
        (Obj [(''oldPathBaseDir'', Num 14), (''newPathBaseDir'', Num 14)])
        \<lparr>backend = [([''home'', ''u'', ''app'', ''a.txt''], [1, 2])], calls = [],
         channels = ([] :: nat list)\<rparr>))
     = [([''home'', ''u'', ''app'', ''a.txt''], [1, 2])]
   \<and> fst (rename (cmd_rename app_env) (PathStr ''a.txt'') (PathStr ''../b.txt'')
        (Obj [(''oldPathBaseDir'', Num 14), (''newPathBaseDir'', Num 14)])
        \<lparr>backend = [([''home'', ''u'', ''app'', ''a.txt''], [1, 2])], calls = [],
         channels = ([] :: nat list)\<rparr>)
     = Inl (Rejected PathTraversal)"
proof -
  let ?fs = "[([''home'', ''u'', ''app'', ''a.txt''], [1, 2])] :: filesystem"
  let ?w = "\<lparr>backend = ?fs, calls = [], channels = ([] :: nat list)\<rparr>"
  let ?co = "Obj [(''fromPathBaseDir'', Num 14), (''toPathBaseDir'', Num 14)]"
  let ?ro = "Obj [(''oldPathBaseDir'', Num 14), (''newPathBaseDir'', Num 14)]"
  have rs: "resolve app_env ''a.txt'' (Some 14) = Inr [''home'', ''u'', ''app'', ''a.txt'']"
    by (simp add: resolve_def validate_def locate_def app_env_def path_syntax normalize_def)
  have rd: "resolve app_env ''secret/b.txt'' (Some 14)
              = Inr [''home'', ''u'', ''app'', ''secret'', ''b.txt'']"
    by (simp add: resolve_def validate_def locate_def app_env_def path_syntax normalize_def)
  have na: "\<not> authorize app_env [''home'', ''u'', ''app'', ''secret'', ''b.txt''] ''copy_file''"
    by (simp add: authorize_def matches_def app_env_def normalize_def)
  have rn: "resolve app_env ''../b.txt'' (Some 14) = Inl PathTraversal"
    by (simp add: resolve_def validate_def path_syntax)
  have b1: "base_of ?co ''fromPathBaseDir'' = Some 14" "base_of ?co ''toPathBaseDir'' = Some 14"
    "base_of ?ro ''oldPathBaseDir'' = Some 14" "base_of ?ro ''newPathBaseDir'' = Some 14"
    by (simp_all add: base_of_def)
  note tc = copy_rename_validate_both_first [where env = app_env and fromPath = "PathStr ''a.txt''"
      and toPath = "PathStr ''secret/b.txt''" and options = ?co and w = ?w
      and rs = "[''home'', ''u'', ''app'', ''a.txt'']"
      and rd = "[''home'', ''u'', ''app'', ''secret'', ''b.txt'']"]
  note tr = copy_rename_validate_both_first [where env = app_env and fromPath = "PathStr ''a.txt''"
      and toPath = "PathStr ''../b.txt''" and options = ?ro and w = ?w
      and rs = "[]" and rd = "[]"]
  have c: "copyFile (cmd_copy_file app_env) (PathStr ''a.txt'') (PathStr ''secret/b.txt'') ?co ?w
     = (Inl (Rejected ScopeViolation),
        ?w\<lparr>calls := calls ?w @ [(''plugin:fs|copy_file'',
                   [(''fromPath'', Str (path_to_string (PathStr ''a.txt''))),
                    (''toPath'', Str (path_to_string (PathStr ''secret/b.txt''))),
                    (''options'', ?co)])]\<rparr>)"
    using tc rs rd na b1 by simp
  have np: "\<not> permitted app_env ''rename'' (path_to_string (PathStr ''../b.txt''))
               (base_of ?ro ''newPathBaseDir'')"
    by (simp add: permitted_def b1 rn)
  from tr np have r: "backend (snd (rename (cmd_rename app_env) (PathStr ''a.txt'')
        (PathStr ''../b.txt'') ?ro ?w)) = backend ?w"
    by blast
  have v: "validate ''../b.txt'' = Inl PathTraversal"
    by (simp add: validate_def path_syntax)
  have v2: "validate ''a.txt'' = Inr ''a.txt''"
    by (simp add: validate_def path_syntax)
  have e: "fst (rename (cmd_rename app_env) (PathStr ''a.txt'') (PathStr ''../b.txt'') ?ro ?w)
             = Inl (Rejected PathTraversal)"
    by (simp add: rename_def invoke_def returning_def cmd_rename_def dispatch_def arg_paths_def
        v v2)
  from c r e show ?thesis by simp
qed

subsection \<open>Seeking\<close>

lemma SeekMode_code_range: "SeekMode_code whence \<in> {0, 1, 2}"
  by (cases whence) simp_all

lemma whence_of_code: "whence_of (SeekMode_code whence) = Some whence"
  by (cases whence) (simp_all add: whence_of_def)

lemma whence_of_None: "whence_of n = None \<longleftrightarrow> n \<notin> {0, 1, 2}"
  by (simp add: whence_of_def)

lemma cmd_seek_open:
  assumes "lookup rid reg = Inr f"
  shows "cmd_seek [(''rid'', Num (int rid)), (''offset'', Num offset), (''whence'', Num n)] reg =
           (case whence_of n of
              None \<Rightarrow> (Inl (IOError ''seek'' ''EINVAL''), reg)
            | Some m \<Rightarrow>
                if seek_target f offset m < 0 then (Inl (IOError ''seek'' ''EINVAL''), reg)
                else (Inr (nat (seek_target f offset m)),
                      reg\<lparr>table := AList.update rid (f\<lparr>f_pos := nat (seek_target f offset m)\<rparr>)
                                      (table reg)\<rparr>))"
  using assms by (simp add: cmd_seek_def os_seek_def split: option.splits)

text \<open>
  C6. For a handle that is open in the registry: the three seek modes are sent as 0, 1
  and 2, and the command fails for any other number; a seek whose target (the offset
  counted from the start, the current position or the end) is negative fails and changes
  nothing; any other seek resolves to the target and leaves the handle's position there.
\<close>

theorem seek_whence_and_offset:
  assumes "lookup rid (backend w) = Inr f"
  shows "SeekMode_code whence \<in> {0, 1, 2}
       \<and> (n \<notin> {0, 1, 2} \<longrightarrow>
            cmd_seek [(''rid'', Num (int rid)), (''offset'', Num offset), (''whence'', Num n)]
              (backend w) = (Inl (IOError ''seek'' ''EINVAL''), backend w))
       \<and> seek cmd_seek \<lparr>fh_rid = rid\<rparr> offset whence w =
           (if seek_target f offset whence < 0
            then (Inl (Rejected (IOError ''seek'' ''EINVAL'')),
                  w\<lparr>calls := calls w @
                       [(''plugin:fs|seek'',
                         [(''rid'', Num (int rid)), (''offset'', Num offset),
                          (''whence'', Num (SeekMode_code whence))])]\<rparr>)
            else (Inr (nat (seek_target f offset whence)),
                  w\<lparr>backend := (backend w)
                         \<lparr>table := AList.update rid (f\<lparr>f_pos := nat (seek_target f offset whence)\<rparr>)
                                     (table (backend w))\<rparr>,
                    calls := calls w @
                       [(''plugin:fs|seek'',
                         [(''rid'', Num (int rid)), (''offset'', Num offset),
                          (''whence'', Num (SeekMode_code whence))])]\<rparr>))
       \<and> (0 \<le> seek_target f offset whence \<longrightarrow>
            lookup rid (backend (snd (seek cmd_seek \<lparr>fh_rid = rid\<rparr> offset whence w)))
              = Inr (f\<lparr>f_pos := nat (seek_target f offset whence)\<rparr>))"
proof -
  have s: "seek cmd_seek \<lparr>fh_rid = rid\<rparr> offset whence w =
           (if seek_target f offset whence < 0
            then (Inl (Rejected (IOError ''seek'' ''EINVAL'')),
                  w\<lparr>calls := calls w @
                       [(''plugin:fs|seek'',
                         [(''rid'', Num (int rid)), (''offset'', Num offset),
                          (''whence'', Num (SeekMode_code whence))])]\<rparr>)
            else (Inr (nat (seek_target f offset whence)),
                  w\<lparr>backend := (backend w)
                         \<lparr>table := AList.update rid (f\<lparr>f_pos := nat (seek_target f offset whence)\<rparr>)
                                     (table (backend w))\<rparr>,
                    calls := calls w @
                       [(''plugin:fs|seek'',
                         [(''rid'', Num (int rid)), (''offset'', Num offset),
                          (''whence'', Num (SeekMode_code whence))])]\<rparr>))"
    by (simp add: seek_def invoke_def cmd_seek_open [OF assms] whence_of_code)
  have n: "n \<notin> {0, 1, 2} \<longrightarrow>
            cmd_seek [(''rid'', Num (int rid)), (''offset'', Num offset), (''whence'', Num n)]
              (backend w) = (Inl (IOError ''seek'' ''EINVAL''), backend w)"
    by (simp add: cmd_seek_open [OF assms] whence_of_def)
  have l: "0 \<le> seek_target f offset whence \<longrightarrow>
            lookup rid (backend (snd (seek cmd_seek \<lparr>fh_rid = rid\<rparr> offset whence w)))
              = Inr (f\<lparr>f_pos := nat (seek_target f offset whence)\<rparr>)"
    unfolding s by (simp add: lookup_def update_conv')
  from s n l SeekMode_code_range [of whence] show ?thesis by blast
qed

theorem seek_whence_and_offset_witness:
  "fst (seek cmd_seek \<lparr>fh_rid = 3\<rparr> 6 Start
          \<lparr>backend = \<lparr>table = [(3, \<lparr>f_data = [72, 101, 108, 108, 111, 32, 119, 111, 114, 108, 100],
                                      f_pos = 8\<rparr>)],
                      next_id = 4\<rparr>,
           calls = [], channels = ([] :: nat list)\<rparr>) = Inr 6
   \<and> fst (seek cmd_seek \<lparr>fh_rid = 3\<rparr> 2 Current
          \<lparr>backend = \<lparr>table = [(3, \<lparr>f_data = [72, 101, 108, 108, 111, 32, 119, 111, 114, 108, 100],
                                      f_pos = 8\<rparr>)],
                      next_id = 4\<rparr>,
           calls = [], channels = ([] :: nat list)\<rparr>) = Inr 10
   \<and> fst (seek cmd_seek \<lparr>fh_rid = 3\<rparr> (- 2) End
          \<lparr>backend = \<lparr>table = [(3, \<lparr>f_data = [72, 101, 108, 108, 111, 32, 119, 111, 114, 108, 100],
                                      f_pos = 8\<rparr>)],
                      next_id = 4\<rparr>,
           calls = [], channels = ([] :: nat list)\<rparr>) = Inr 9
   \<and> seek cmd_seek \<lparr>fh_rid = 3\<rparr> (- 9) Current
          \<lparr>backend = \<lparr>table = [(3, \<lparr>f_data = [72, 101, 108, 108, 111, 32, 119, 111, 114, 108, 100],
                                      f_pos = 8\<rparr>)],
                      next_id = 4\<rparr>,
           calls = [], channels = ([] :: nat list)\<rparr>
       = (Inl (Rejected (IOError ''seek'' ''EINVAL'')),
          \<lparr>backend = \<lparr>table = [(3, \<lparr>f_data = [72, 101, 108, 108, 111, 32, 119, 111, 114, 108, 100],
                                      f_pos = 8\<rparr>)],
                      next_id = 4\<rparr>,
           calls = [(''plugin:fs|seek'', [(''rid'', Num 3), (''offset'', Num (- 9)), (''whence'', Num 1)])],
           channels = []\<rparr>)
   \<and> cmd_seek [(''rid'', Num 3), (''offset'', Num 0), (''whence'', Num 3)]
          \<lparr>table = [(3, \<lparr>f_data = [72, 101, 108, 108, 111, 32, 119, 111, 114, 108, 100],
                          f_pos = 8\<rparr>)],
           next_id = 4\<rparr>
       = (Inl (IOError ''seek'' ''EINVAL''),
          \<lparr>table = [(3, \<lparr>f_data = [72, 101, 108, 108, 111, 32, 119, 111, 114, 108, 100],
                          f_pos = 8\<rparr>)],
           next_id = 4\<rparr>)"
proof -
  let ?f = "\<lparr>f_data = [72, 101, 108, 108, 111, 32, 119, 111, 114, 108, 100], f_pos = 8\<rparr>"
  let ?reg = "\<lparr>table = [(3, ?f)], next_id = 4\<rparr>"
  let ?w = "\<lparr>backend = ?reg, calls = [], channels = ([] :: nat list)\<rparr>"
  have l: "lookup 3 (backend ?w) = Inr ?f" by (simp add: lookup_def)
  note a = seek_whence_and_offset [OF l, where offset = 6 and whence = Start and n = 3]
  note b = seek_whence_and_offset [OF l, where offset = 2 and whence = Current and n = 3]
  note c = seek_whence_and_offset [OF l, where offset = "- 2" and whence = End and n = 3]
  note d = seek_whence_and_offset [OF l, where offset = "- 9" and whence = Current and n = 3]
  note e = seek_whence_and_offset [OF l, where offset = 0 and whence = Start and n = 3]
  from a have a': "fst (seek cmd_seek \<lparr>fh_rid = 3\<rparr> 6 Start ?w) = Inr 6"
    by (elim conjE) (simp add: seek_target_def)
  from b have b': "fst (seek cmd_seek \<lparr>fh_rid = 3\<rparr> 2 Current ?w) = Inr 10"
    by (elim conjE) (simp add: seek_target_def)
  from c have c': "fst (seek cmd_seek \<lparr>fh_rid = 3\<rparr> (- 2) End ?w) = Inr 9"
    by (elim conjE) (simp add: seek_target_def)
  from d have d': "seek cmd_seek \<lparr>fh_rid = 3\<rparr> (- 9) Current ?w
       = (Inl (Rejected (IOError ''seek'' ''EINVAL'')),
          ?w\<lparr>calls := [(''plugin:fs|seek'',
                          [(''rid'', Num 3), (''offset'', Num (- 9)), (''whence'', Num 1)])]\<rparr>)"
    by (elim conjE) (simp add: seek_target_def)
  from e have e': "cmd_seek [(''rid'', Num 3), (''offset'', Num 0), (''whence'', Num 3)] ?reg
       = (Inl (IOError ''seek'' ''EINVAL''), ?reg)"
    by (elim conjE) simp
  from a' b' c' d' e' show ?thesis by simp
qed

subsection \<open>Stopping a watch\<close>

lemma issued_iff:
  "issued ws \<longleftrightarrow> (\<forall>r. map_of (sessions ws) r \<noteq> None \<longrightarrow> r < next_session ws)"
proof
  assume i: "issued ws"
  show "\<forall>r. map_of (sessions ws) r \<noteq> None \<longrightarrow> r < next_session ws"
  proof (intro allI impI)
    fix r assume "map_of (sessions ws) r \<noteq> None"
    then obtain s where "map_of (sessions ws) r = Some s" by auto
    then have "(r, s) \<in> set (sessions ws)" by (rule map_of_SomeD)
    with i show "r < next_session ws" by (auto simp: issued_def list_all_iff)
  qed
next
  assume a: "\<forall>r. map_of (sessions ws) r \<noteq> None \<longrightarrow> r < next_session ws"
  show "issued ws"
    unfolding issued_def list_all_iff
  proof
    fix x assume x: "x \<in> set (sessions ws)"
    then have "fst x \<in> fst ` set (sessions ws)" by (rule imageI)
    then have "map_of (sessions ws) (fst x) \<noteq> None" by (simp add: map_of_eq_None_iff)
    with a have "fst x < next_session ws" by blast
    then show "case x of (r, s) \<Rightarrow> r < next_session ws" by (cases x) simp
  qed
qed

lemma deliver_map_of:
  "map_of (fst (deliver ev ss)) r = None \<longleftrightarrow> map_of ss r = None"
  by (induction ss) (auto split: prod.splits if_splits)

lemma deliver_out:
  "(r, c, b) \<in> set (snd (deliver ev ss)) \<Longrightarrow> map_of ss r \<noteq> None"
  by (induction ss arbitrary: r c b) (auto split: prod.splits if_splits)

lemma dispatch_cases:
  "(\<exists>e. dispatch env cls keys prim a os = (Inl e, os))
   \<or> (\<exists>rps. dispatch env cls keys prim a os = prim rps a os)"
proof (cases "path_args keys a")
  case None
  then show ?thesis by (simp add: dispatch_def)
next
  case (Some lps)
  show ?thesis
  proof (cases "traverse (\<lambda>(s, b). case validate s of Inl e \<Rightarrow> Inl e | Inr p \<Rightarrow> Inr (p, b)) lps")
    case (Inl e)
    with Some show ?thesis by (simp add: dispatch_def)
  next
    case vps: (Inr vps)
    show ?thesis
    proof (cases "traverse (\<lambda>(p, b). locate env p b) vps")
      case (Inl e)
      with Some vps show ?thesis by (simp add: dispatch_def)
    next
      case (Inr rps)
      with Some vps show ?thesis by (auto simp: dispatch_def)
    qed
  qed
qed


lemma subscribe_cases:
  "subscribe rps a ws = (Inl (InvalidPath Malformed), ws)
   \<or> (\<exists>s. subscribe rps a ws =
          (Inr (next_session ws),
           ws\<lparr>sessions := sessions ws @ [(next_session ws, s)],
              next_session := next_session ws + 1\<rparr>))"
  by (auto simp: subscribe_def split: option.splits)

lemma cmd_watch_cases:
  "snd (cmd_watch env a ws) = ws
   \<or> (\<exists>s. snd (cmd_watch env a ws) =
          ws\<lparr>sessions := sessions ws @ [(next_session ws, s)],
             next_session := next_session ws + 1\<rparr>)"
proof -
  from dispatch_cases [of env "''watch''" "[(''paths'', ''baseDir'')]" subscribe a ws]
  show ?thesis
  proof
    assume "\<exists>e. dispatch env ''watch'' [(''paths'', ''baseDir'')] subscribe a ws = (Inl e, ws)"
    then show ?thesis by (auto simp: cmd_watch_def)
  next
    assume "\<exists>rps. dispatch env ''watch'' [(''paths'', ''baseDir'')] subscribe a ws
              = subscribe rps a ws"
    then obtain rps where r: "cmd_watch env a ws = subscribe rps a ws"
      by (auto simp: cmd_watch_def)
    from subscribe_cases [of rps a ws] show ?thesis unfolding r by auto
  qed
qed

lemma quiet_watch:
  assumes "quiet rid ws"
  shows "quiet rid (ws\<lparr>sessions := sessions ws @ [(next_session ws, s)],
                       next_session := next_session ws + 1\<rparr>)"
  using assms
  by (auto simp: quiet_def issued_iff map_add_def split: option.splits if_splits)

lemma quiet_stop:
  assumes "quiet rid ws"
  shows "quiet rid (stop_session r ws)"
  using assms by (auto simp: quiet_def issued_iff stop_session_def delete_conv')

lemma wstep_quiet:
  assumes "quiet rid ws"
  shows "quiet rid (wstep env coalesce m ws)
       \<and> emitted_for rid (wstep env coalesce m ws) = emitted_for rid ws"
proof (cases m)
  case (WatchCmd a)
  from cmd_watch_cases [of env a ws] show ?thesis
  proof
    assume "snd (cmd_watch env a ws) = ws"
    with assms show ?thesis unfolding WatchCmd by simp
  next
    assume "\<exists>s. snd (cmd_watch env a ws) =
          ws\<lparr>sessions := sessions ws @ [(next_session ws, s)],
             next_session := next_session ws + 1\<rparr>"
    then obtain s where s: "snd (cmd_watch env a ws) =
          ws\<lparr>sessions := sessions ws @ [(next_session ws, s)],
             next_session := next_session ws + 1\<rparr>" by blast
    from quiet_watch [OF assms, of s] show ?thesis
      unfolding WatchCmd by (simp add: s emitted_for_def)
  qed
next
  case (UnwatchCmd a)
  have "snd (cmd_unwatch a ws) = ws \<or> (\<exists>r. snd (cmd_unwatch a ws) = stop_session r ws)"
    by (auto simp: cmd_unwatch_def split: option.splits jsval.splits)
  then show ?thesis
  proof
    assume "snd (cmd_unwatch a ws) = ws"
    with assms show ?thesis unfolding UnwatchCmd by simp
  next
    assume "\<exists>r. snd (cmd_unwatch a ws) = stop_session r ws"
    then obtain r where r: "snd (cmd_unwatch a ws) = stop_session r ws" by blast
    from quiet_stop [OF assms, of r] show ?thesis
      unfolding UnwatchCmd by (simp add: r emitted_for_def stop_session_def)
  qed
next
  case (RawEvent ev)
  obtain ss out where d: "deliver ev (sessions ws) = (ss, out)"
    by (cases "deliver ev (sessions ws)") auto
  from deliver_map_of [of ev "sessions ws"] d
  have k: "\<And>r. map_of ss r = None \<longleftrightarrow> map_of (sessions ws) r = None" by simp
  from deliver_out [of _ _ _ ev "sessions ws"] d
  have o: "\<And>r c b. (r, c, b) \<in> set out \<Longrightarrow> map_of (sessions ws) r \<noteq> None" by auto
  from assms have n: "map_of (sessions ws) rid = None" by (simp add: quiet_def)
  have f: "filter (\<lambda>(r, c, evs). r = rid) out = []"
    unfolding filter_empty_conv
  proof
    fix x assume x: "x \<in> set out"
    obtain r c b where xe: "x = (r, c, b)" by (cases x) auto
    from o [of r c b] x xe n have "r \<noteq> rid" by auto
    with xe show "\<not> (case x of (r, c, evs) \<Rightarrow> r = rid)" by simp
  qed
  from assms k have "quiet rid (ws\<lparr>sessions := ss, emitted := emitted ws @ out\<rparr>)"
    by (simp add: quiet_def issued_iff)
  with f d show ?thesis
    unfolding RawEvent by (simp add: emitted_for_def raw_event_def)
next
  case (TimerFire r)
  show ?thesis
  proof (cases "map_of (sessions ws) r")
    case None
    with assms show ?thesis unfolding TimerFire by (simp add: timer_fire_def)
  next
    case (Some s)
    with assms have ne: "r \<noteq> rid" by (auto simp: quiet_def)
    from assms Some ne show ?thesis
      unfolding TimerFire
      by (auto simp: quiet_def issued_iff emitted_for_def timer_fire_def update_conv')
  qed
qed

lemma wrun_quiet:
  "quiet rid ws \<Longrightarrow>
     quiet rid (wrun env coalesce ms ws)
     \<and> emitted_for rid (wrun env coalesce ms ws) = emitted_for rid ws"
proof (induction ms arbitrary: ws)
  case Nil
  then show ?case by simp
next
  case (Cons m ms)
  from wstep_quiet [OF Cons.prems, of env coalesce m]
  have q: "quiet rid (wstep env coalesce m ws)"
    and e: "emitted_for rid (wstep env coalesce m ws) = emitted_for rid ws"
    by simp_all
  from Cons.IH [OF q] e show ?case by simp
qed

lemma stop_session_quiet:
  "issued ws \<Longrightarrow> rid < next_session ws \<Longrightarrow> quiet rid (stop_session rid ws)"
  by (auto simp: quiet_def issued_iff stop_session_def delete_conv')

lemma stop_session_absent:
  "map_of (sessions ws) rid = None \<Longrightarrow> stop_session rid ws = ws"
  by (simp add: stop_session_def map_of_eq_None_iff delete_id)

lemma stop_session_twice: "stop_session rid (stop_session rid ws) = stop_session rid ws"
  by (simp add: stop_session_def delete_idem)


lemma unwatch_ok:
  "unwatch cmd_unwatch rid w =
     (Inr (), w\<lparr>backend := stop_session rid (backend w),
                 calls := calls w @ [(''plugin:fs|unwatch'', [(''rid'', Num (int rid))])]\<rparr>)"
  by (simp add: unwatch_def invoke_def returning_def cmd_unwatch_def)

lemma watch_returns_issued:
  assumes "watch (cmd_watch env) cmd_unwatch paths cb options w = (Inr stop, w')"
  shows "\<exists>rid. stop = UnwatchFn cmd_unwatch rid \<and> rid < next_session (backend w')
           \<and> (issued (backend w) \<longrightarrow> issued (backend w'))"
proof -
  let ?a = "[(''paths'', Arr (map (\<lambda>p. Str (path_to_string p)) (watchPaths paths))),
             (''options'', Obj (watch_opts options)),
             (''onEvent'', Chan (length (channels w)))]"
  from assms have nf: "\<not> list_ex not_file_url (watchPaths paths)"
    by (auto simp: watch_def split: if_splits)
  obtain r b where c: "cmd_watch env ?a (backend w) = (r, b)"
    by (cases "cmd_watch env ?a (backend w)") auto
  with assms nf obtain rid where rid: "r = Inr rid" "stop = UnwatchFn cmd_unwatch rid"
    "backend w' = b"
    by (cases r) (auto simp: watch_def invoke_def returning_def)
  from dispatch_cases [of env "''watch''" "[(''paths'', ''baseDir'')]" subscribe ?a "backend w"]
    c rid(1)
  obtain rps where "subscribe rps ?a (backend w) = (Inr rid, b)"
    by (auto simp: cmd_watch_def)
  with subscribe_cases [of rps ?a "backend w"] obtain s where
    r: "rid = next_session (backend w)"
    and b: "b = (backend w)\<lparr>sessions := sessions (backend w) @ [(next_session (backend w), s)],
                      next_session := next_session (backend w) + 1\<rparr>"
    by auto
  from r b rid(3) have lt: "rid < next_session (backend w')" by simp
  have "issued (backend w) \<longrightarrow> issued (backend w')"
    unfolding rid(3) b issued_iff
    by (auto simp: map_add_def less_Suc_eq split: option.splits if_splits)
  with lt rid(2) show ?thesis by blast
qed

text \<open>
  C7. Whatever the session table holds under \<open>rid\<close> (an active session, a stopped one,
  nothing), \<^verbatim>\<open>unwatch\<close> succeeds, and the function \<^verbatim>\<open>watch\<close> resolves to, which
  drops its result, leaves the watcher manager with the session stopped; called again it
  changes nothing, and on an identifier with no session it is a no-op. For an identifier
  that was issued, whatever messages reach the watcher manager afterwards (raw events,
  timers, watch and unwatch commands), the batches emitted for that session stay those
  emitted before the stop.
\<close>

theorem unwatch_idempotent_and_silent:
  "fst (unwatch cmd_unwatch rid w) = Inr ()
   \<and> backend (snd (UnwatchFn cmd_unwatch rid w)) = stop_session rid (backend w)
   \<and> backend (snd (UnwatchFn cmd_unwatch rid (snd (UnwatchFn cmd_unwatch rid w))))
       = backend (snd (UnwatchFn cmd_unwatch rid w))
   \<and> (map_of (sessions (backend w)) rid = None \<longrightarrow>
        backend (snd (UnwatchFn cmd_unwatch rid w)) = backend w)
   \<and> (issued (backend w) \<and> rid < next_session (backend w) \<longrightarrow>
        emitted_for rid (wrun env coalesce msgs (backend (snd (UnwatchFn cmd_unwatch rid w))))
          = emitted_for rid (backend w))"
proof (intro conjI impI)
  show "fst (unwatch cmd_unwatch rid w) = Inr ()" by (simp add: unwatch_ok)
  show b: "backend (snd (UnwatchFn cmd_unwatch rid w)) = stop_session rid (backend w)"
    by (simp add: UnwatchFn_def unwatch_ok)
  show "backend (snd (UnwatchFn cmd_unwatch rid (snd (UnwatchFn cmd_unwatch rid w))))
       = backend (snd (UnwatchFn cmd_unwatch rid w))"
    by (simp add: UnwatchFn_def unwatch_ok stop_session_twice)
  show "backend (snd (UnwatchFn cmd_unwatch rid w)) = backend w"
    if "map_of (sessions (backend w)) rid = None"
    using that by (simp add: b stop_session_absent)
  show "emitted_for rid (wrun env coalesce msgs (backend (snd (UnwatchFn cmd_unwatch rid w))))
          = emitted_for rid (backend w)"
    if h: "issued (backend w) \<and> rid < next_session (backend w)"
  proof -
    from h have "quiet rid (stop_session rid (backend w))"
      by (simp add: stop_session_quiet)
    from wrun_quiet [OF this, of env coalesce msgs]
    show ?thesis by (simp add: b emitted_for_def stop_session_def)
  qed
qed


theorem unwatch_idempotent_and_silent_witness:
  "emitted_for 0
      (wrun app_env (\<lambda>evs. evs)
         [RawEvent \<lparr>ev_paths = [[''home'', ''u'', ''app'', ''logs'', ''x'']], ev_kind = Modify,
                    ev_attrib = None\<rparr>]
         \<lparr>sessions = [(0, \<lparr>s_roots = [[''home'', ''u'', ''app'', ''logs'']], s_recursive = True,
                           s_delay = 0, s_channel = 5, s_buffer = []\<rparr>)],
          next_session = 1, emitted = []\<rparr>)
     = [(0, 5, [\<lparr>ev_paths = [[''home'', ''u'', ''app'', ''logs'', ''x'']], ev_kind = Modify,
                 ev_attrib = None\<rparr>])]
   \<and> fst (unwatch cmd_unwatch 0
        \<lparr>backend = \<lparr>sessions = [(0, \<lparr>s_roots = [[''home'', ''u'', ''app'', ''logs'']],
                                        s_recursive = True, s_delay = 0, s_channel = 5,
                                        s_buffer = []\<rparr>)],
                    next_session = 1, emitted = []\<rparr>,
         calls = [], channels = [0 :: nat]\<rparr>) = Inr ()
   \<and> emitted_for 0
      (wrun app_env (\<lambda>evs. evs)
         [RawEvent \<lparr>ev_paths = [[''home'', ''u'', ''app'', ''logs'', ''x'']], ev_kind = Modify,
                    ev_attrib = None\<rparr>,
          TimerFire 0, UnwatchCmd [(''rid'', Num 0)],
          RawEvent \<lparr>ev_paths = [[''home'', ''u'', ''app'', ''logs'', ''x'']], ev_kind = Remove,
                    ev_attrib = None\<rparr>]
         (backend (snd (UnwatchFn cmd_unwatch 0
            \<lparr>backend = \<lparr>sessions = [(0, \<lparr>s_roots = [[''home'', ''u'', ''app'', ''logs'']],
                                            s_recursive = True, s_delay = 0, s_channel = 5,
                                            s_buffer = []\<rparr>)],
                        next_session = 1, emitted = []\<rparr>,
             calls = [], channels = [0 :: nat]\<rparr>))))
     = []
   \<and> backend (snd (UnwatchFn cmd_unwatch 7
        \<lparr>backend = \<lparr>sessions = [(0, \<lparr>s_roots = [[''home'', ''u'', ''app'', ''logs'']],
                                        s_recursive = True, s_delay = 0, s_channel = 5,
                                        s_buffer = []\<rparr>)],
                    next_session = 1, emitted = []\<rparr>,
         calls = [], channels = [0 :: nat]\<rparr>))
     = \<lparr>sessions = [(0, \<lparr>s_roots = [[''home'', ''u'', ''app'', ''logs'']], s_recursive = True,
                          s_delay = 0, s_channel = 5, s_buffer = []\<rparr>)],
        next_session = 1, emitted = []\<rparr>"
proof -
  let ?ev = "\<lparr>ev_paths = [[''home'', ''u'', ''app'', ''logs'', ''x'']], ev_kind = Modify,
              ev_attrib = None\<rparr>"
  let ?ev' = "\<lparr>ev_paths = [[''home'', ''u'', ''app'', ''logs'', ''x'']], ev_kind = Remove,
              ev_attrib = None\<rparr>"
  let ?ws = "\<lparr>sessions = [(0, \<lparr>s_roots = [[''home'', ''u'', ''app'', ''logs'']], s_recursive = True,
                           s_delay = 0, s_channel = 5, s_buffer = []\<rparr>)],
             next_session = 1, emitted = []\<rparr>"
  let ?w = "\<lparr>backend = ?ws, calls = [], channels = [0 :: nat]\<rparr>"
  let ?ms = "[RawEvent ?ev, TimerFire 0, UnwatchCmd [(''rid'', Num 0)], RawEvent ?ev']"
  have live: "emitted_for 0 (wrun app_env (\<lambda>evs. evs) [RawEvent ?ev] ?ws) = [(0, 5, [?ev])]"
    by (simp add: emitted_for_def raw_event_def concerns_def covers_def)
  have i: "issued (backend ?w) \<and> 0 < next_session (backend ?w)"
    by (simp add: issued_def)
  have u: "map_of (sessions (backend ?w)) 7 = None" by simp
  note t0 = unwatch_idempotent_and_silent [where rid = 0 and w = ?w and env = app_env
      and coalesce = "\<lambda>evs. evs" and msgs = ?ms]
  note t7 = unwatch_idempotent_and_silent [where rid = 7 and w = ?w and env = app_env
      and coalesce = "\<lambda>evs. evs" and msgs = ?ms]
  from t0 have a: "fst (unwatch cmd_unwatch 0 ?w) = Inr ()" by (elim conjE)
  from t0 i have b: "emitted_for 0
      (wrun app_env (\<lambda>evs. evs) ?ms (backend (snd (UnwatchFn cmd_unwatch 0 ?w))))
      = emitted_for 0 (backend ?w)"
    by blast
  from t7 u have c: "backend (snd (UnwatchFn cmd_unwatch 7 ?w)) = backend ?w" by blast
  have e: "emitted_for 0 (backend ?w) = []" by (simp add: emitted_for_def)
  from live a b c e show ?thesis by simp
qed

end
